theory Spec2Isabelle
  imports Complex_Main "HOL-Library.Multiset"
begin

section \<open>Python strings\<close>

text \<open>
  A Python \<open>str\<close> is modelled as a \<open>string\<close> whose characters are read as the code
  points below 256. \<open>str.isspace\<close> holds there for TAB..CR (9..13), the separators
  FS..US (28..31), the space (32), NEL (133) and the no-break space (160).
\<close>

definition py_isspace :: "char \<Rightarrow> bool" where
  "py_isspace c = (of_char c \<in> {9, 10, 11, 12, 13, 28, 29, 30, 31, 32, 133, 160 :: nat})"

definition py_lstrip :: "string \<Rightarrow> string" where
  "py_lstrip s = dropWhile py_isspace s"

definition py_rstrip :: "string \<Rightarrow> string" where
  "py_rstrip s = rev (dropWhile py_isspace (rev s))"

text \<open>\<open>s.strip()\<close>\<close>

definition py_strip :: "string \<Rightarrow> string" where
  "py_strip s = py_rstrip (py_lstrip s)"

text \<open>\<open>sep.join(parts)\<close>\<close>

fun py_join :: "string \<Rightarrow> string list \<Rightarrow> string" where
  "py_join sep [] = []"
| "py_join sep [x] = x"
| "py_join sep (x # y # ys) = x @ sep @ py_join sep (y # ys)"

text \<open>\<open>s.endswith(suf)\<close>\<close>

definition endswith :: "string \<Rightarrow> string \<Rightarrow> bool" where
  "endswith s suf = (length suf \<le> length s \<and> drop (length s - length suf) s = suf)"

text \<open>\<open>x or ""\<close> for \<open>x\<close> a string or \<open>None\<close>: a falsy \<open>x\<close> gives the empty string.\<close>

definition or_empty :: "string option \<Rightarrow> string" where
  "or_empty x = (case x of None \<Rightarrow> [] | Some t \<Rightarrow> (if t = [] then [] else t))"

section \<open>Uploaded files and the user interface\<close>

text \<open>
  An uploaded file carries its \<open>name\<close> and what the two parsers make of its bytes:
  \<open>pdf\<close> is the outcome of \<open>pdfplumber.open(file)\<close> followed by \<open>page.extract_text()\<close> on
  every page of \<open>pdf.pages\<close> (\<open>None\<close> for a page without extractable text), \<open>docx\<close> the
  outcome of \<open>docx.Document(file)\<close> followed by \<open>para.text\<close> on every paragraph. \<open>Inl e\<close>
  says that an \<open>Exception\<close> was raised on the way, with \<open>e\<close> its \<open>str(e)\<close>.
\<close>

record uploaded_file =
  name :: string
  pdf :: "string + string option list"
  docx :: "string + string list"

text \<open>One entry of \<open>results\<close>: the dict with keys Document, Match Score and Raw Score.\<close>

record result =
  Document :: string
  Match_Score :: string
  Raw_Score :: rat

text \<open>
  What the script shows, in the order of the calls:
  \<open>Progress k n text\<close> is \<open>progress_bar.progress(k/n, text)\<close>;
  \<open>Error msg\<close> is \<open>st.error(msg)\<close>;
  \<open>Success n\<close> is \<open>st.success\<close> of "Analysis complete! Processed n resumes";
  \<open>Card idx r colour\<close> is the markdown block of one result;
  \<open>Download rows\<close> is the download button over \<open>create_downloadable_data(rows)\<close>;
  \<open>Warning\<close> is the \<open>st.warning\<close> asking for resumes and a job description.
  The fixed decorations (title, style sheet, headings, score guide) are not recorded.
\<close>

datatype ui_event =
    Progress nat nat string
  | Error string
  | Success nat
  | Card nat result string
  | Download "(nat \<times> string \<times> string) list"
  | Warning

section \<open>extract_text\<close>

text \<open>
  The function returns the text; the second component is what it shows on the way
  (the \<open>st.error\<close> of the \<open>except\<close> branch).
\<close>

definition extract_text :: "uploaded_file \<Rightarrow> string \<times> ui_event list" where
  "extract_text file =
     (if endswith (name file) ''.pdf'' then
        (case pdf file of
           Inr pages \<Rightarrow> (py_strip (py_join '' '' (map or_empty pages)), [])
         | Inl e \<Rightarrow> ([], [Error (''Error processing '' @ name file @ '': '' @ e)]))
      else if endswith (name file) ''.docx'' then
        (case docx file of
           Inr paragraphs \<Rightarrow> (py_strip (py_join '' '' paragraphs), [])
         | Inl e \<Rightarrow> ([], [Error (''Error processing '' @ name file @ '': '' @ e)]))
      else ([], []))"

section \<open>The libraries\<close>

text \<open>
  scikit-learn and the float arithmetic of the interpreter are not part of the script;
  they are parameters of the model. \<open>'vz\<close> is the vectorizer object (with whatever a fit
  leaves in it), \<open>'vec\<close> a row of the TF-IDF matrix.
  \<^item> \<open>TfidfVectorizer sw\<close> is \<open>TfidfVectorizer(stop_words=sw)\<close>;
  \<^item> \<open>fit_transform v texts\<close> is \<open>v.fit_transform(texts)\<close>: the matrix as the list of its
    rows, or \<open>Inl e\<close> when it raises, and the object after the call;
  \<^item> \<open>cosine x y\<close> is the entry of \<open>cosine_similarity\<close> for the rows \<open>x\<close> and \<open>y\<close>;
  \<^item> \<open>float_mul\<close> is the product of two floats.
  A finite float is modelled by its exact rational value.
\<close>

record ('vz, 'vec) libs =
  TfidfVectorizer :: "string \<Rightarrow> 'vz"
  fit_transform :: "'vz \<Rightarrow> string list \<Rightarrow> (string + 'vec list) \<times> 'vz"
  cosine :: "'vec \<Rightarrow> 'vec \<Rightarrow> rat"
  float_mul :: "rat \<Rightarrow> rat \<Rightarrow> rat"

text \<open>\<open>cosine_similarity(X, Y)\<close>: one row per row of \<open>X\<close>, one column per row of \<open>Y\<close>.\<close>

definition cosine_similarity :: "('vz, 'vec) libs \<Rightarrow> 'vec list \<Rightarrow> 'vec list \<Rightarrow> rat list list" where
  "cosine_similarity L X Y = map (\<lambda>x. map (cosine L x) Y) X"

text \<open>
  \<open>get_vectorizer\<close> under \<open>st.cache_resource\<close>: the first call builds the object, every
  later call of the process returns that same object.
\<close>

definition get_vectorizer :: "('vz, 'vec) libs \<Rightarrow> 'vz option \<Rightarrow> 'vz" where
  "get_vectorizer L cache =
     (case cache of Some v \<Rightarrow> v | None \<Rightarrow> TfidfVectorizer L ''english'')"

section \<open>Formatting a score\<close>

definition round_half_even :: "rat \<Rightarrow> int" where
  "round_half_even y =
     (let f = \<lfloor>y\<rfloor>; d = y - of_int f
      in if d < 1 / 2 then f else if 1 / 2 < d then f + 1 else if even f then f else f + 1)"

definition digit :: "nat \<Rightarrow> char" where
  "digit d = ''0123456789'' ! d"

function decimal :: "nat \<Rightarrow> string" where
  "decimal n = (if n < 10 then [digit n] else decimal (n div 10) @ [digit (n mod 10)])"
  by pat_completeness auto
termination
  by (relation "measure id") auto

declare decimal.simps [simp del]

text \<open>
  \<open>format(x, ".2f")\<close> of a finite float: the exact value rounded to two decimals, ties to
  even; the sign is kept when a negative value rounds to zero.
\<close>

definition format_2f :: "rat \<Rightarrow> string" where
  "format_2f x =
     (let n = nat (round_half_even (\<bar>x\<bar> * 100))
      in (if x < 0 then ''-'' else []) @ decimal (n div 100) @ ''.'' @
         [digit (n mod 100 div 10), digit (n mod 10)])"

text \<open>\<open>f"{score * 100:.2f}%"\<close>\<close>

definition match_score :: "('vz, 'vec) libs \<Rightarrow> rat \<Rightarrow> string" where
  "match_score L score = format_2f (float_mul L score 100) @ ''%''"

section \<open>The matching block\<close>

record loop_state =
  valid_resumes :: "uploaded_file list"
  resume_texts :: "string list"
  shown :: "ui_event list"

text \<open>One turn of \<open>for i, resume in enumerate(resumes)\<close>; \<open>n\<close> is \<open>len(resumes)\<close>.\<close>

definition loop_body :: "nat \<Rightarrow> nat \<times> uploaded_file \<Rightarrow> loop_state \<Rightarrow> loop_state" where
  "loop_body n = (\<lambda>(i, resume) s.
     (let s1 = s\<lparr>shown := shown s @ [Progress (i + 1) n (''Processing '' @ name resume @ ''...'')]\<rparr>;
          (text, errs) = extract_text resume;
          s2 = s1\<lparr>shown := shown s1 @ errs\<rparr>
      in if text \<noteq> [] then
           s2\<lparr>valid_resumes := valid_resumes s2 @ [resume],
               resume_texts := resume_texts s2 @ [text]\<rparr>
         else s2))"

text \<open>\<open>st.progress(0)\<close> is shown as \<open>Progress 0 1 ""\<close>.\<close>

definition extraction_loop :: "uploaded_file list \<Rightarrow> loop_state" where
  "extraction_loop resumes =
     fold (loop_body (length resumes)) (enumerate 0 resumes)
       \<lparr>valid_resumes = [], resume_texts = [], shown = [Progress 0 1 []]\<rparr>"

text \<open>The loop over \<open>zip(names, similarity_scores)\<close> that fills \<open>results\<close>.\<close>

definition build_results :: "('vz, 'vec) libs \<Rightarrow> string list \<Rightarrow> rat list \<Rightarrow> result list" where
  "build_results L names similarity_scores =
     map (\<lambda>(nm, score). \<lparr>Document = nm, Match_Score = match_score L score, Raw_Score = score\<rparr>)
       (zip names similarity_scores)"

text \<open>
  \<open>sorted(xs, key=key, reverse=True)\<close>: the list is reversed, sorted stably in ascending
  order of the key, and reversed again.
\<close>

definition py_sorted_reverse :: "('a \<Rightarrow> 'k::linorder) \<Rightarrow> 'a list \<Rightarrow> 'a list" where
  "py_sorted_reverse key xs = rev (sort_key key (rev xs))"

definition sorted_results :: "result list \<Rightarrow> result list" where
  "sorted_results results = py_sorted_reverse Raw_Score results"

text \<open>
  The float literals \<open>0.5\<close> and \<open>0.3\<close>; the second is not a binary fraction, its float is
  \<open>5404319552844595 / 2^54\<close>.
\<close>

definition score_color :: "result \<Rightarrow> string" where
  "score_color r =
     (if Raw_Score r > 1 / 2 then ''green''
      else if Raw_Score r > 5404319552844595 / 18014398509481984 then ''orange''
      else ''red'')"

text \<open>Everything shown from \<open>st.success\<close> on; \<open>srs\<close> is \<open>sorted_results\<close>.\<close>

definition display :: "result list \<Rightarrow> ui_event list" where
  "display srs =
     [Success (length srs)] @
     map (\<lambda>(idx, r). Card idx r (score_color r)) (enumerate 1 srs) @
     [Download (map (\<lambda>(i, res). (i + 1, Document res, Match_Score res)) (enumerate 0 srs))]"

text \<open>
  The outcome of one run of the script: what was shown, the cached vectorizer after the
  run, and the corpora \<open>fit_transform\<close> was called on, one entry per call.
\<close>

record 'vz outcome =
  ui :: "ui_event list"
  cache :: "'vz option"
  fit_calls :: "string list list"

text \<open>
  One run: \<open>resumes\<close> and \<open>job_description\<close> are the values of the two widgets, \<open>button\<close>
  says whether "Start Matching" was pressed. \<open>st.stop()\<close> ends the run with what was shown
  so far. The \<open>try\<close> around the vectorization catches what \<open>fit_transform\<close> raises.
\<close>

definition run :: "('vz, 'vec) libs \<Rightarrow> 'vz option \<Rightarrow> uploaded_file list \<Rightarrow> string \<Rightarrow> bool \<Rightarrow> 'vz outcome" where
  "run L cached resumes job_description button =
     (if resumes \<noteq> [] \<and> job_description \<noteq> [] \<and> button then
        (let vectorizer = get_vectorizer L cached;
             s = extraction_loop resumes
         in if resume_texts s = [] then
              \<lparr>ui = shown s @ [Error ''No valid text extracted from uploaded resumes!''],
               cache = Some vectorizer, fit_calls = []\<rparr>
            else
              (let job_desc_texts = [job_description] @ resume_texts s
               in case fit_transform L vectorizer job_desc_texts of
                    (Inl e, vectorizer') \<Rightarrow>
                      \<lparr>ui = shown s @ [Error (''Error in document processing: '' @ e)],
                       cache = Some vectorizer', fit_calls = [job_desc_texts]\<rparr>
                  | (Inr tfidf_matrix, vectorizer') \<Rightarrow>
                      (let similarity_scores =
                             concat (cosine_similarity L (take 1 tfidf_matrix) (drop 1 tfidf_matrix));
                           results = build_results L (map name (valid_resumes s)) similarity_scores
                       in \<lparr>ui = shown s @ display (sorted_results results),
                           cache = Some vectorizer', fit_calls = [job_desc_texts]\<rparr>)))
      else if resumes = [] \<or> job_description = [] then
        \<lparr>ui = [Warning], cache = cached, fit_calls = []\<rparr>
      else \<lparr>ui = [], cache = cached, fit_calls = []\<rparr>)"

section \<open>Reading the output\<close>

definition error_messages :: "ui_event list \<Rightarrow> string list" where
  "error_messages evs = concat (map (\<lambda>e. case e of Error m \<Rightarrow> [m] | _ \<Rightarrow> []) evs)"

definition cards :: "ui_event list \<Rightarrow> (nat \<times> result) list" where
  "cards evs = concat (map (\<lambda>e. case e of Card idx r c \<Rightarrow> [(idx, r)] | _ \<Rightarrow> []) evs)"

definition downloads :: "ui_event list \<Rightarrow> (nat \<times> string \<times> string) list list" where
  "downloads evs = concat (map (\<lambda>e. case e of Download rows \<Rightarrow> [rows] | _ \<Rightarrow> []) evs)"

text \<open>The documents that pass \<open>if text:\<close>, and their texts, in upload order.\<close>

definition valid_of :: "uploaded_file list \<Rightarrow> uploaded_file list" where
  "valid_of resumes = filter (\<lambda>r. fst (extract_text r) \<noteq> []) resumes"

definition texts_of :: "uploaded_file list \<Rightarrow> string list" where
  "texts_of resumes = map (\<lambda>r. fst (extract_text r)) (valid_of resumes)"

section \<open>The runs of one process\<close>

text \<open>
  The runs of a process share the cached vectorizer. \<open>session L history\<close> is the cache
  after the runs of \<open>history\<close> (the values of the widgets at each run, oldest first), the
  process having started with an empty cache, together with all the corpora
  \<open>fit_transform\<close> was called on, in the order of the calls.
\<close>

definition session ::
  "('vz, 'vec) libs \<Rightarrow> (uploaded_file list \<times> string \<times> bool) list \<Rightarrow> 'vz option \<times> string list list" where
  "session L history =
     fold (\<lambda>(resumes, job_description, button) (cached, calls).
             (let out = run L cached resumes job_description button
              in (cache out, calls @ fit_calls out)))
       history (None, [])"

section \<open>A small library to run the script on\<close>

text \<open>
  A stand-in for the parameters: the vectorizer object counts its fits, a row is the
  length of its text, \<open>fit_transform\<close> gives one row per text and raises, with the
  message of scikit-learn for an empty vocabulary, when every text is shorter than two
  characters (no text has a token then), the similarity of two rows is the ratio of the
  shorter to the longer, and the float product is exact (as it is whenever the product
  is a float).
\<close>

definition demo :: "(nat, nat) libs" where
  "demo = \<lparr>TfidfVectorizer = (\<lambda>sw. 0),
           fit_transform = (\<lambda>v texts.
              if list_all (\<lambda>t. length t < 2) texts
              then (Inl ''empty vocabulary; perhaps the documents only contain stop words'', Suc v)
              else (Inr (map length texts), Suc v)),
           cosine = (\<lambda>x y. if x = 0 \<or> y = 0 then 0 else of_nat (min x y) / of_nat (max x y)),
           float_mul = (\<lambda>a b. a * b)\<rparr>"

section \<open>Notions used to state the properties\<close>

text \<open>
  The message of the exception that the parse run by \<open>extract_text\<close> on this file raises,
  if it raises.
\<close>

definition parse_error :: "uploaded_file \<Rightarrow> string option" where
  "parse_error f =
     (if endswith (name f) ''.pdf'' then (case pdf f of Inl e \<Rightarrow> Some e | Inr _ \<Rightarrow> None)
      else if endswith (name f) ''.docx'' then (case docx f of Inl e \<Rightarrow> Some e | Inr _ \<Rightarrow> None)
      else None)"

text \<open>
  What the loop shows for the documents \<open>rs\<close>, the first of them being number \<open>i\<close> (from 0)
  of the \<open>n\<close> submitted: for each its progress line, then what \<open>extract_text\<close> shows.
\<close>

definition loop_events :: "nat \<Rightarrow> nat \<Rightarrow> uploaded_file list \<Rightarrow> ui_event list" where
  "loop_events n i rs =
     concat (map (\<lambda>(k, r). Progress (k + 1) n (''Processing '' @ name r @ ''...'') # snd (extract_text r))
               (enumerate i rs))"

definition progress_texts :: "ui_event list \<Rightarrow> string list" where
  "progress_texts evs = concat (map (\<lambda>e. case e of Progress k n t \<Rightarrow> [t] | _ \<Rightarrow> []) evs)"

text \<open>
  The PDF path in the words of the specification: a page without extractable text
  contributes the empty string, the page texts are concatenated with one space between
  neighbours, and the whitespace at both ends is cut off.
\<close>

definition page_text :: "string option \<Rightarrow> string" where
  "page_text p = (case p of None \<Rightarrow> [] | Some t \<Rightarrow> t)"

fun spaced :: "string list \<Rightarrow> string" where
  "spaced [] = []"
| "spaced (t # ts) = t @ concat (map (\<lambda>u. CHR '' '' # u) ts)"

definition trim :: "string \<Rightarrow> string" where
  "trim s =
     (let s' = drop (length (takeWhile py_isspace s)) s
      in take (length s' - length (takeWhile py_isspace (rev s'))) s')"

definition spec_pdf_text :: "string option list \<Rightarrow> string" where
  "spec_pdf_text pages = trim (spaced (map page_text pages))"

text \<open>The number a string of decimal digits denotes.\<close>

definition digit_value :: "char \<Rightarrow> nat" where
  "digit_value c = of_char c - 48"

definition decimal_value :: "string \<Rightarrow> nat" where
  "decimal_value s = foldl (\<lambda>a c. 10 * a + digit_value c) 0 s"

text \<open>\<open>sub in s\<close> for two strings: \<open>sub\<close> occurs in \<open>s\<close> as a contiguous piece.\<close>

fun contains :: "string \<Rightarrow> string \<Rightarrow> bool" where
  "contains [] sub = (sub = [])"
| "contains (c # s) sub = (take (length sub) (c # s) = sub \<or> contains s sub)"

section \<open>Sample inputs\<close>

text \<open>
  Four uploads: a DOCX with two paragraphs, a PDF of three pages of which the second has
  no extractable text, a scanned PDF without any text, and a PDF that the parser rejects.
\<close>

definition ann :: uploaded_file where
  "ann = \<lparr>name = ''ann.docx'', pdf = Inl ''not a PDF'',
          docx = Inr [''Senior Java'', ''devs '']\<rparr>"

definition bob :: uploaded_file where
  "bob = \<lparr>name = ''bob.pdf'', pdf = Inr [Some '' Java'', None, Some ''ok ''],
          docx = Inl ''not a DOCX''\<rparr>"

definition scan :: uploaded_file where
  "scan = \<lparr>name = ''scan.pdf'', pdf = Inr [None, Some []], docx = Inl ''not a DOCX''\<rparr>"

definition broken :: uploaded_file where
  "broken = \<lparr>name = ''broken.pdf'', pdf = Inl ''No /Root object'', docx = Inl ''not a DOCX''\<rparr>"

text \<open>A DOCX whose whole text is the letter a.\<close>

definition tiny :: uploaded_file where
  "tiny = \<lparr>name = ''tiny.docx'', pdf = Inl ''not a PDF'', docx = Inr [''a'']\<rparr>"

text \<open>Three entries of \<open>results\<close>, the first and the last with the same score.\<close>

definition res_a :: result where
  "res_a = \<lparr>Document = ''a.pdf'', Match_Score = ''25.00%'', Raw_Score = 1 / 4\<rparr>"

definition res_b :: result where
  "res_b = \<lparr>Document = ''b.pdf'', Match_Score = ''50.00%'', Raw_Score = 1 / 2\<rparr>"

definition res_c :: result where
  "res_c = \<lparr>Document = ''c.pdf'', Match_Score = ''25.00%'', Raw_Score = 1 / 4\<rparr>"

section \<open>Reading the output: basic facts\<close>

lemma error_messages_append: "error_messages (xs @ ys) = error_messages xs @ error_messages ys"
  by (simp add: error_messages_def)

lemma error_messages_simps [simp]:
  "error_messages [] = []"
  "error_messages (Progress k n t # es) = error_messages es"
  "error_messages (Error m # es) = m # error_messages es"
  "error_messages (Success n # es) = error_messages es"
  "error_messages (Card i r c # es) = error_messages es"
  "error_messages (Download rows # es) = error_messages es"
  "error_messages (Warning # es) = error_messages es"
  by (simp_all add: error_messages_def)

lemma progress_texts_append: "progress_texts (xs @ ys) = progress_texts xs @ progress_texts ys"
  by (simp add: progress_texts_def)

lemma progress_texts_simps [simp]:
  "progress_texts [] = []"
  "progress_texts (Progress k n t # es) = t # progress_texts es"
  "progress_texts (Error m # es) = progress_texts es"
  "progress_texts (Success n # es) = progress_texts es"
  "progress_texts (Card i r c # es) = progress_texts es"
  "progress_texts (Download rows # es) = progress_texts es"
  "progress_texts (Warning # es) = progress_texts es"
  by (simp_all add: progress_texts_def)

lemma cards_append: "cards (xs @ ys) = cards xs @ cards ys"
  by (simp add: cards_def)

lemma cards_simps [simp]:
  "cards [] = []"
  "cards (Progress k n t # es) = cards es"
  "cards (Error m # es) = cards es"
  "cards (Success n # es) = cards es"
  "cards (Card i r c # es) = (i, r) # cards es"
  "cards (Download rows # es) = cards es"
  "cards (Warning # es) = cards es"
  by (simp_all add: cards_def)

lemma downloads_append: "downloads (xs @ ys) = downloads xs @ downloads ys"
  by (simp add: downloads_def)

lemma downloads_simps [simp]:
  "downloads [] = []"
  "downloads (Progress k n t # es) = downloads es"
  "downloads (Error m # es) = downloads es"
  "downloads (Success n # es) = downloads es"
  "downloads (Card i r c # es) = downloads es"
  "downloads (Download rows # es) = rows # downloads es"
  "downloads (Warning # es) = downloads es"
  by (simp_all add: downloads_def)

section \<open>Strings: joining and stripping\<close>

lemma py_join_spaced: "py_join '' '' ts = spaced ts"
  by (induction "'' ''" ts rule: py_join.induct) auto

lemma or_empty_page_text: "or_empty p = page_text p"
  by (cases p) (auto simp: or_empty_def page_text_def)

lemma py_strip_trim: "py_strip s = trim s"
proof -
  let ?t = "dropWhile py_isspace s"
  have "take (length ?t - length (takeWhile py_isspace (rev ?t))) ?t
        = rev (drop (length (takeWhile py_isspace (rev ?t))) (rev ?t))"
    by (simp add: rev_drop)
  also have "\<dots> = rev (dropWhile py_isspace (rev ?t))"
    by (simp only: dropWhile_eq_drop [symmetric])
  finally show ?thesis
    by (simp add: py_strip_def py_lstrip_def py_rstrip_def trim_def Let_def dropWhile_eq_drop [symmetric])
qed

lemma rev_dropWhile_split:
  "xs = rev (dropWhile P (rev xs)) @ rev (takeWhile P (rev xs))"
proof -
  have "rev (takeWhile P (rev xs) @ dropWhile P (rev xs)) = xs"
    by (simp only: takeWhile_dropWhile_id rev_rev_ident)
  then show ?thesis
    by (simp only: rev_append)
qed

lemma py_strip_split:
  "s = takeWhile py_isspace s @ py_strip s @ rev (takeWhile py_isspace (rev (dropWhile py_isspace s)))"
proof -
  have "s = takeWhile py_isspace s @ dropWhile py_isspace s" by simp
  also have "dropWhile py_isspace s = py_strip s @ rev (takeWhile py_isspace (rev (dropWhile py_isspace s)))"
    unfolding py_strip_def py_lstrip_def py_rstrip_def by (rule rev_dropWhile_split)
  finally show ?thesis .
qed

lemma py_strip_ends:
  assumes "py_strip s \<noteq> []"
  shows "\<not> py_isspace (hd (py_strip s))" and "\<not> py_isspace (last (py_strip s))"
proof -
  let ?t = "dropWhile py_isspace s"
  let ?u = "dropWhile py_isspace (rev ?t)"
  have u: "?u \<noteq> []" and r: "py_strip s = rev ?u"
    using assms by (simp_all add: py_strip_def py_lstrip_def py_rstrip_def)
  have "\<not> py_isspace (hd ?u)" using u by (rule hd_dropWhile)
  then show "\<not> py_isspace (last (py_strip s))"
    using u by (simp add: r last_rev)
  have "?t = [] \<Longrightarrow> ?u = []" by (auto dest: set_dropWhileD)
  then have t: "?t \<noteq> []" using u by blast
  have "?t = rev ?u @ rev (takeWhile py_isspace (rev ?t))"
    by (rule rev_dropWhile_split)
  then have "hd ?t = hd (rev ?u)" using u
    by (metis hd_append2 rev_is_Nil_conv)
  moreover have "\<not> py_isspace (hd ?t)" using t by (rule hd_dropWhile)
  ultimately show "\<not> py_isspace (hd (py_strip s))" by (simp add: r)
qed

lemma py_strip_whitespace:
  assumes "list_all py_isspace s"
  shows "py_strip s = []"
proof -
  have d: "dropWhile py_isspace s = []"
    using assms by (simp add: list_all_iff)
  show ?thesis
    by (simp only: py_strip_def py_lstrip_def py_rstrip_def d rev.simps dropWhile.simps)
qed

lemma length_spaced: "length (spaced ts) = sum_list (map length ts) + (length ts - 1)"
proof (cases ts)
  case Nil then show ?thesis by simp
next
  case (Cons t us)
  have "length (concat (map (\<lambda>u. CHR '' '' # u) us)) = sum_list (map length us) + length us"
    by (induction us) auto
  then show ?thesis using Cons by simp
qed

text \<open>
  Claim C8. For a file whose name ends in \<open>.pdf\<close> and whose pages could be read,
  \<open>extract_text\<close> returns the text of the specification's PDF path and shows nothing:
  every page contributes its text (the empty string when it has none), neighbours are
  joined by exactly one space, so that the joined text has the lengths of the pages plus
  one per gap, and the result is the joined text without the whitespace at its two ends.
\<close>

theorem pdf_text_is_trimmed_space_join:
  assumes "endswith (name f) ''.pdf''" and "pdf f = Inr pages"
  shows "extract_text f = (spec_pdf_text pages, [])
    \<and> length (spaced (map page_text pages))
        = sum_list (map (\<lambda>p. length (page_text p)) pages) + (length pages - 1)
    \<and> (\<exists>a b. spaced (map page_text pages) = a @ spec_pdf_text pages @ b
           \<and> list_all py_isspace a \<and> list_all py_isspace b)
    \<and> (spec_pdf_text pages \<noteq> [] \<longrightarrow>
           \<not> py_isspace (hd (spec_pdf_text pages)) \<and> \<not> py_isspace (last (spec_pdf_text pages)))"
proof -
  let ?j = "spaced (map page_text pages)"
  have m: "map or_empty pages = map page_text pages"
    by (simp add: or_empty_page_text)
  have s: "spec_pdf_text pages = py_strip ?j"
    by (simp add: spec_pdf_text_def py_strip_trim)
  have 1: "extract_text f = (spec_pdf_text pages, [])"
    using assms by (simp add: extract_text_def m py_join_spaced s)
  have 2: "length ?j = sum_list (map (\<lambda>p. length (page_text p)) pages) + (length pages - 1)"
    by (simp add: length_spaced comp_def)
  have "?j = takeWhile py_isspace ?j @ py_strip ?j
               @ rev (takeWhile py_isspace (rev (dropWhile py_isspace ?j)))"
    by (rule py_strip_split)
  moreover have "list_all py_isspace (takeWhile py_isspace ?j)"
    by (simp add: list_all_iff) (meson set_takeWhileD)
  moreover have "list_all py_isspace (rev (takeWhile py_isspace (rev (dropWhile py_isspace ?j))))"
    by (simp add: list_all_iff) (meson set_takeWhileD)
  ultimately have 3: "\<exists>a b. ?j = a @ spec_pdf_text pages @ b
       \<and> list_all py_isspace a \<and> list_all py_isspace b"
    unfolding s by blast
  have 4: "spec_pdf_text pages \<noteq> [] \<longrightarrow>
       \<not> py_isspace (hd (spec_pdf_text pages)) \<and> \<not> py_isspace (last (spec_pdf_text pages))"
    unfolding s using py_strip_ends [of ?j] by blast
  show ?thesis using 1 2 3 4 by blast
qed

text \<open>
  The sample PDF has the pages " Java", none and "ok ": two spaces remain between the
  words (one gap on each side of the empty page), the outer spaces go.
\<close>

theorem pdf_text_is_trimmed_space_join_witness:
  "endswith (name bob) ''.pdf'' \<and> pdf bob = Inr [Some '' Java'', None, Some ''ok '']
   \<and> extract_text bob = (''Java  ok'', [])"
proof -
  have n: "endswith (name bob) ''.pdf''"
    by (simp add: bob_def endswith_def)
  have p: "pdf bob = Inr [Some '' Java'', None, Some ''ok '']"
    by (simp add: bob_def)
  have v: "spec_pdf_text [Some '' Java'', None, Some ''ok ''] = ''Java  ok''"
    by (simp add: spec_pdf_text_def trim_def page_text_def py_isspace_def)
  show ?thesis
    using pdf_text_is_trimmed_space_join [OF n p] n p v by simp
qed

section \<open>What the display shows\<close>

lemma cards_Card_map: "cards (map (\<lambda>(idx, r). Card idx r (c r)) ps) = ps"
  by (induction ps) (auto simp: cards_def)

lemma cards_display: "cards (display srs) = enumerate 1 srs"
  unfolding display_def cards_append cards_Card_map by simp

lemma downloads_Card_map: "downloads (map (\<lambda>(idx, r). Card idx r (c r)) ps) = []"
  by (induction ps) (auto simp: downloads_def)

lemma enumerate_shift:
  "map (\<lambda>(i, r). (i + 1, f r)) (enumerate n xs) = map (\<lambda>(k, r). (k, f r)) (enumerate (Suc n) xs)"
  by (induction xs arbitrary: n) auto

lemma downloads_display:
  "downloads (display srs) = [map (\<lambda>(k, r). (k, Document r, Match_Score r)) (enumerate 1 srs)]"
proof -
  have "downloads (display srs) =
          [map (\<lambda>(i, res). (i + 1, Document res, Match_Score res)) (enumerate 0 srs)]"
    unfolding display_def downloads_append downloads_Card_map by simp
  then show ?thesis
    using enumerate_shift [of "\<lambda>r. (Document r, Match_Score r)" 0 srs] by simp
qed

section \<open>The descending stable sort\<close>

lemma py_sorted_reverse_desc:
  "sorted_wrt (\<lambda>a b. key b \<le> key a) (py_sorted_reverse key xs)"
proof -
  have "sorted (map key (sort_key key (rev xs)))" by (rule sorted_sort_key)
  then have "sorted_wrt (\<lambda>a b. key a \<le> key b) (sort_key key (rev xs))"
    by (simp add: sorted_map)
  then show ?thesis
    by (simp add: py_sorted_reverse_def sorted_wrt_rev)
qed

lemma py_sorted_reverse_stable:
  "filter (\<lambda>x. key x = k) (py_sorted_reverse key xs) = filter (\<lambda>x. key x = k) xs"
proof -
  have "filter (\<lambda>x. key x = k) (py_sorted_reverse key xs)
        = rev (filter (\<lambda>x. key x = k) (sort_key key (rev xs)))"
    by (simp add: py_sorted_reverse_def rev_filter)
  also have "\<dots> = rev (filter (\<lambda>x. key x = k) (rev xs))"
    by (simp only: sort_key_stable)
  also have "\<dots> = filter (\<lambda>x. key x = k) xs"
    by (simp add: rev_filter)
  finally show ?thesis .
qed

lemma mset_py_sorted_reverse: "mset (py_sorted_reverse key xs) = mset xs"
  by (simp add: py_sorted_reverse_def)

lemma length_py_sorted_reverse: "length (py_sorted_reverse key xs) = length xs"
  by (simp add: py_sorted_reverse_def)

text \<open>
  Claim C2. For every list \<open>rs\<close> of results with \<open>N\<close> entries, the cards shown carry the
  rank positions \<open>1, \<dots>, N\<close> in this order (each once, also among equal scores), their raw
  scores descend, the entries of any one score keep the order they had in \<open>rs\<close>, nothing
  is lost or added, and the exported rows carry the same positions and documents.
\<close>

theorem ranking_sorted_dense_stable:
  "map fst (cards (display (sorted_results rs))) = [1..<Suc (length rs)]
   \<and> sorted_wrt (\<lambda>a b. Raw_Score b \<le> Raw_Score a) (map snd (cards (display (sorted_results rs))))
   \<and> (\<forall>s. filter (\<lambda>r. Raw_Score r = s) (map snd (cards (display (sorted_results rs))))
          = filter (\<lambda>r. Raw_Score r = s) rs)
   \<and> mset (map snd (cards (display (sorted_results rs)))) = mset rs
   \<and> downloads (display (sorted_results rs))
       = [map (\<lambda>(k, r). (k, Document r, Match_Score r)) (cards (display (sorted_results rs)))]"
proof -
  have a: "map fst (cards (display (sorted_results rs))) = [1..<Suc (length rs)]"
    by (simp add: cards_display sorted_results_def length_py_sorted_reverse)
  have s: "map snd (cards (display (sorted_results rs))) = py_sorted_reverse Raw_Score rs"
    by (simp add: cards_display sorted_results_def)
  show ?thesis
    unfolding s
    using a py_sorted_reverse_desc [of Raw_Score rs] py_sorted_reverse_stable [of Raw_Score _ rs]
      mset_py_sorted_reverse [of Raw_Score rs]
    by (simp add: downloads_display cards_display)
qed

text \<open>
  On the three sample results: the higher score comes first, the two equal scores follow
  in their input order, at the positions 2 and 3.
\<close>

theorem ranking_sorted_dense_stable_witness:
  "map fst (cards (display (sorted_results [res_a, res_b, res_c]))) = [1, 2, 3]
   \<and> map snd (cards (display (sorted_results [res_a, res_b, res_c]))) = [res_b, res_a, res_c]
   \<and> filter (\<lambda>r. Raw_Score r = 1 / 4) (map snd (cards (display (sorted_results [res_a, res_b, res_c]))))
       = [res_a, res_c]"
proof -
  note t = ranking_sorted_dense_stable [of "[res_a, res_b, res_c]"]
  have p: "map fst (cards (display (sorted_results [res_a, res_b, res_c]))) = [1, 2, 3]"
    using t by (simp add: upt_rec)
  have e: "map snd (cards (display (sorted_results [res_a, res_b, res_c]))) = [res_b, res_a, res_c]"
    by (simp add: cards_display sorted_results_def py_sorted_reverse_def res_a_def res_b_def res_c_def)
  from t have "filter (\<lambda>r. Raw_Score r = 1 / 4) (map snd (cards (display (sorted_results [res_a, res_b, res_c]))))
      = filter (\<lambda>r. Raw_Score r = 1 / 4) [res_a, res_b, res_c]"
    by blast
  also have "\<dots> = [res_a, res_c]"
    by (simp add: res_a_def res_b_def res_c_def)
  finally show ?thesis
    using p e by blast
qed

section \<open>The extraction loop and the three ways a run ends\<close>

lemma extract_text_parse_error:
  "snd (extract_text f) =
     (case parse_error f of None \<Rightarrow> [] | Some e \<Rightarrow> [Error (''Error processing '' @ name f @ '': '' @ e)])"
  by (simp add: extract_text_def parse_error_def split: sum.splits)

lemma extract_text_raised: "parse_error f = Some e \<Longrightarrow> fst (extract_text f) = []"
  by (auto simp: extract_text_def parse_error_def split: sum.splits if_splits)

lemma extract_text_shows_no_progress [simp]: "progress_texts (snd (extract_text r)) = []"
  by (simp add: extract_text_parse_error split: option.splits)

lemma extract_text_shows_no_cards [simp]: "cards (snd (extract_text r)) = []"
  by (simp add: extract_text_parse_error split: option.splits)

lemma extract_text_shows_no_downloads [simp]: "downloads (snd (extract_text r)) = []"
  by (simp add: extract_text_parse_error split: option.splits)

lemma loop_body_fields:
  "valid_resumes (loop_body n (i, r) s) = valid_resumes s @ valid_of [r]"
  "resume_texts (loop_body n (i, r) s) = resume_texts s @ texts_of [r]"
  "shown (loop_body n (i, r) s)
     = shown s @ Progress (i + 1) n (''Processing '' @ name r @ ''...'') # snd (extract_text r)"
  by (simp_all add: loop_body_def valid_of_def texts_of_def Let_def split: prod.splits)

lemma valid_of_append: "valid_of (xs @ ys) = valid_of xs @ valid_of ys"
  by (simp add: valid_of_def)

lemma texts_of_append: "texts_of (xs @ ys) = texts_of xs @ texts_of ys"
  by (simp add: texts_of_def valid_of_def)

lemma valid_of_Cons: "valid_of (r # rs) = valid_of [r] @ valid_of rs"
  by (simp add: valid_of_def)

lemma texts_of_Cons: "texts_of (r # rs) = texts_of [r] @ texts_of rs"
  by (simp add: texts_of_def valid_of_def)

lemma length_texts_of: "length (texts_of rs) = length (valid_of rs)"
  by (simp add: texts_of_def)

lemma fold_loop_valid:
  "valid_resumes (fold (loop_body n) (enumerate i rs) s) = valid_resumes s @ valid_of rs"
proof (induction rs arbitrary: i s)
  case Nil
  then show ?case by (simp add: valid_of_def)
next
  case (Cons r rs)
  show ?case
    by (simp add: Cons.IH loop_body_fields valid_of_Cons [of r rs])
qed

lemma fold_loop_texts:
  "resume_texts (fold (loop_body n) (enumerate i rs) s) = resume_texts s @ texts_of rs"
proof (induction rs arbitrary: i s)
  case Nil
  then show ?case by (simp add: texts_of_def valid_of_def)
next
  case (Cons r rs)
  show ?case
    by (simp add: Cons.IH loop_body_fields texts_of_Cons [of r rs])
qed

lemma fold_loop_errors:
  "error_messages (shown (fold (loop_body n) (enumerate i rs) s))
     = error_messages (shown s) @ concat (map (\<lambda>r. error_messages (snd (extract_text r))) rs)"
proof (induction rs arbitrary: i s)
  case Nil
  then show ?case by simp
next
  case (Cons r rs)
  show ?case
    by (simp add: Cons.IH loop_body_fields error_messages_append)
qed

lemma fold_loop_progress:
  "progress_texts (shown (fold (loop_body n) (enumerate i rs) s))
     = progress_texts (shown s) @ map (\<lambda>r. ''Processing '' @ name r @ ''...'') rs"
proof (induction rs arbitrary: i s)
  case Nil
  then show ?case by simp
next
  case (Cons r rs)
  show ?case
    by (simp add: Cons.IH loop_body_fields progress_texts_append)
qed

lemma fold_loop_cards:
  "cards (shown (fold (loop_body n) (enumerate i rs) s)) = cards (shown s)"
proof (induction rs arbitrary: i s)
  case Nil
  then show ?case by simp
next
  case (Cons r rs)
  show ?case
    by (simp add: Cons.IH loop_body_fields cards_append)
qed

lemma fold_loop_downloads:
  "downloads (shown (fold (loop_body n) (enumerate i rs) s)) = downloads (shown s)"
proof (induction rs arbitrary: i s)
  case Nil
  then show ?case by simp
next
  case (Cons r rs)
  show ?case
    by (simp add: Cons.IH loop_body_fields downloads_append)
qed

lemma loop_valid: "valid_resumes (extraction_loop rs) = valid_of rs"
  by (simp add: extraction_loop_def fold_loop_valid)

lemma loop_texts: "resume_texts (extraction_loop rs) = texts_of rs"
  by (simp add: extraction_loop_def fold_loop_texts)

lemma loop_errors:
  "error_messages (shown (extraction_loop rs))
     = concat (map (\<lambda>r. error_messages (snd (extract_text r))) rs)"
  by (simp add: extraction_loop_def fold_loop_errors)

lemma loop_progress:
  "progress_texts (shown (extraction_loop rs)) = [] # map (\<lambda>r. ''Processing '' @ name r @ ''...'') rs"
  by (simp add: extraction_loop_def fold_loop_progress)

lemma loop_cards: "cards (shown (extraction_loop rs)) = []"
  by (simp add: extraction_loop_def fold_loop_cards)

lemma loop_downloads: "downloads (shown (extraction_loop rs)) = []"
  by (simp add: extraction_loop_def fold_loop_downloads)

lemma run_stops_without_text:
  assumes "resumes \<noteq> []" "jd \<noteq> []" "texts_of resumes = []"
  shows "run L c resumes jd True =
           \<lparr>ui = shown (extraction_loop resumes) @ [Error ''No valid text extracted from uploaded resumes!''],
            cache = Some (get_vectorizer L c), fit_calls = []\<rparr>"
  using assms by (simp add: run_def Let_def loop_texts)

lemma run_fit_raises:
  assumes "resumes \<noteq> []" "jd \<noteq> []" "texts_of resumes \<noteq> []"
    and "fit_transform L (get_vectorizer L c) (jd # texts_of resumes) = (Inl e, v')"
  shows "run L c resumes jd True =
           \<lparr>ui = shown (extraction_loop resumes) @ [Error (''Error in document processing: '' @ e)],
            cache = Some v', fit_calls = [jd # texts_of resumes]\<rparr>"
  using assms by (simp add: run_def Let_def loop_texts)

lemma run_ranks:
  assumes "resumes \<noteq> []" "jd \<noteq> []" "texts_of resumes \<noteq> []"
    and "fit_transform L (get_vectorizer L c) (jd # texts_of resumes) = (Inr m, v')"
  shows "run L c resumes jd True =
           \<lparr>ui = shown (extraction_loop resumes) @
                   display (sorted_results (build_results L (map name (valid_of resumes))
                      (concat (cosine_similarity L (take 1 m) (drop 1 m))))),
            cache = Some v', fit_calls = [jd # texts_of resumes]\<rparr>"
  using assms by (simp add: run_def Let_def loop_texts loop_valid)

lemma scores_row0:
  "m \<noteq> [] \<Longrightarrow> concat (cosine_similarity L (take 1 m) (drop 1 m)) = map (cosine L (m ! 0)) (tl m)"
  by (cases m) (simp_all add: cosine_similarity_def drop_Suc)

lemma loop_events_append:
  "loop_events n i (xs @ ys) = loop_events n i xs @ loop_events n (i + length xs) ys"
  by (simp add: loop_events_def enumerate_append_eq)

lemma loop_events_Cons:
  "loop_events n i (r # rs)
     = Progress (Suc i) n (''Processing '' @ name r @ ''...'') # snd (extract_text r)
       @ loop_events n (Suc i) rs"
  by (simp add: loop_events_def)

lemma loop_events_Nil [simp]: "loop_events n i [] = []"
  by (simp add: loop_events_def)

lemma fold_loop_shown:
  "shown (fold (loop_body n) (enumerate i rs) s) = shown s @ loop_events n i rs"
proof (induction rs arbitrary: i s)
  case Nil
  then show ?case by simp
next
  case (Cons r rs)
  show ?case
    by (simp add: Cons.IH loop_body_fields loop_events_Cons)
qed

lemma loop_shown:
  "shown (extraction_loop rs) = Progress 0 1 [] # loop_events (length rs) 0 rs"
  by (simp add: extraction_loop_def fold_loop_shown)

lemma run_ui:
  assumes "resumes \<noteq> []" and "jd \<noteq> []"
  shows "ui (run L c resumes jd True)
     = shown (extraction_loop resumes)
       @ (if texts_of resumes = [] then [Error ''No valid text extracted from uploaded resumes!'']
          else case fst (fit_transform L (get_vectorizer L c) (jd # texts_of resumes)) of
                 Inl e \<Rightarrow> [Error (''Error in document processing: '' @ e)]
               | Inr m \<Rightarrow>
                   display (sorted_results (build_results L (map name (valid_of resumes))
                     (concat (cosine_similarity L (take 1 m) (drop 1 m))))))"
proof (cases "texts_of resumes = []")
  case True
  then show ?thesis
    by (simp add: run_stops_without_text [OF assms True])
next
  case False
  obtain res v' where f: "fit_transform L (get_vectorizer L c) (jd # texts_of resumes) = (res, v')"
    by (cases "fit_transform L (get_vectorizer L c) (jd # texts_of resumes)")
  show ?thesis
  proof (cases res)
    case (Inl e)
    show ?thesis
      unfolding run_fit_raises [OF assms False f [unfolded Inl]]
      using False by (simp add: f Inl)
  next
    case (Inr m)
    show ?thesis
      unfolding run_ranks [OF assms False f [unfolded Inr]]
      using False by (simp add: f Inr)
  qed
qed

section \<open>The samples, evaluated\<close>

lemma sample_texts:
  "extract_text ann = (''Senior Java devs'', [])"
  "extract_text bob = (''Java  ok'', [])"
  "extract_text scan = ([], [])"
  "extract_text broken = ([], [Error ''Error processing broken.pdf: No /Root object''])"
  by (simp_all add: extract_text_def ann_def bob_def scan_def broken_def endswith_def
      py_strip_def py_lstrip_def py_rstrip_def py_isspace_def or_empty_def)

lemma sample_parse_errors:
  "parse_error ann = None" "parse_error bob = None" "parse_error scan = None"
  "parse_error broken = Some ''No /Root object''"
  by (simp_all add: parse_error_def ann_def bob_def scan_def broken_def endswith_def)

lemma sample_names:
  "name ann = ''ann.docx''" "name bob = ''bob.pdf''" "name scan = ''scan.pdf''"
  "name broken = ''broken.pdf''"
  by (simp_all add: ann_def bob_def scan_def broken_def)

lemma demo_fields:
  "TfidfVectorizer demo sw = 0"
  "fit_transform demo v texts =
     (if list_all (\<lambda>t. length t < 2) texts
      then (Inl ''empty vocabulary; perhaps the documents only contain stop words'', Suc v)
      else (Inr (map length texts), Suc v))"
  "cosine demo x y = (if x = 0 \<or> y = 0 then 0 else of_nat (min x y) / of_nat (max x y))"
  "float_mul demo a b = a * b"
  by (simp_all add: demo_def)

lemma format_samples:
  "format_2f 25 = ''25.00''" "format_2f 50 = ''50.00''"
  by (simp_all add: format_2f_def round_half_even_def Let_def decimal.simps digit_def)

section \<open>A document whose parse raises\<close>

lemma run_fit_calls:
  assumes "resumes \<noteq> []" "jd \<noteq> []" "texts_of resumes \<noteq> []"
  shows "fit_calls (run L c resumes jd True) = [jd # texts_of resumes]"
proof (cases "fit_transform L (get_vectorizer L c) (jd # texts_of resumes)")
  case (Pair res v')
  show ?thesis
  proof (cases res)
    case (Inl e)
    with Pair assms show ?thesis by (simp add: run_fit_raises)
  next
    case (Inr m)
    with Pair assms show ?thesis by (simp add: run_ranks)
  qed
qed

text \<open>
  Claim C5 as stated fails in one part: the result of an extraction carries no status.
  The parse of the rejected sample PDF raises, that of the scanned one does not, and
  \<open>extract_text\<close> returns the same value, the empty string, for both.
\<close>

theorem failed_and_empty_return_the_same:
  "parse_error broken = Some ''No /Root object'' \<and> parse_error scan = None
   \<and> fst (extract_text broken) = [] \<and> fst (extract_text scan) = []
   \<and> fst (extract_text broken) = fst (extract_text scan)"
  by (simp add: sample_parse_errors sample_texts)

text \<open>
  Claim C5, as the script has it. When the parse of a document raises, \<open>extract_text\<close>
  catches the exception: it returns the empty string, as for an empty document, which
  leaves the document out of the ranking, and shows one error that names the document
  and carries the cause. The loop goes on. In the run the error stands right after the
  progress line of that document, between what the loop shows for the documents before
  and for those after, each with its own number; the texts kept are those of the other
  documents; and after the loop the run ends as it would without the document: with the
  message that no text was extracted, with the error of the vectorizer, or with the
  ranking of the others. When some text was extracted the vectorizer is fitted on the
  job description and the texts of the others.
\<close>

theorem parse_error_shown_text_empty_batch_continues:
  assumes "parse_error bad = Some e" and "jd \<noteq> []"
  shows "extract_text bad = ([], [Error (''Error processing '' @ name bad @ '': '' @ e)])
    \<and> valid_resumes (extraction_loop (pre @ bad # post)) = valid_of pre @ valid_of post
    \<and> resume_texts (extraction_loop (pre @ bad # post)) = texts_of pre @ texts_of post
    \<and> shown (extraction_loop (pre @ bad # post))
        = Progress 0 1 [] # loop_events (Suc (length pre + length post)) 0 pre
          @ [Progress (Suc (length pre)) (Suc (length pre + length post))
               (''Processing '' @ name bad @ ''...''),
             Error (''Error processing '' @ name bad @ '': '' @ e)]
          @ loop_events (Suc (length pre + length post)) (Suc (length pre)) post
    \<and> ui (run L c (pre @ bad # post) jd True)
        = shown (extraction_loop (pre @ bad # post))
          @ (if texts_of pre @ texts_of post = []
             then [Error ''No valid text extracted from uploaded resumes!'']
             else case fst (fit_transform L (get_vectorizer L c) (jd # texts_of pre @ texts_of post)) of
                    Inl e' \<Rightarrow> [Error (''Error in document processing: '' @ e')]
                  | Inr m \<Rightarrow>
                      display (sorted_results (build_results L (map name (valid_of pre @ valid_of post))
                        (concat (cosine_similarity L (take 1 m) (drop 1 m))))))
    \<and> (texts_of pre @ texts_of post \<noteq> [] \<longrightarrow>
         fit_calls (run L c (pre @ bad # post) jd True) = [jd # texts_of pre @ texts_of post])"
proof -
  have t: "fst (extract_text bad) = []"
    using assms(1) by (rule extract_text_raised)
  have s: "snd (extract_text bad) = [Error (''Error processing '' @ name bad @ '': '' @ e)]"
    using assms(1) by (simp add: extract_text_parse_error)
  have 1: "extract_text bad = ([], [Error (''Error processing '' @ name bad @ '': '' @ e)])"
    using t s by (simp add: prod_eq_iff)
  have vb: "valid_of [bad] = []" and tb: "texts_of [bad] = []"
    using t by (simp_all add: valid_of_def texts_of_def)
  have v: "valid_of (pre @ bad # post) = valid_of pre @ valid_of post"
    using vb valid_of_append [of pre "bad # post"] valid_of_Cons [of bad post] by simp
  have x: "texts_of (pre @ bad # post) = texts_of pre @ texts_of post"
    using tb texts_of_append [of pre "bad # post"] texts_of_Cons [of bad post] by simp
  have 4: "shown (extraction_loop (pre @ bad # post))
        = Progress 0 1 [] # loop_events (Suc (length pre + length post)) 0 pre
          @ [Progress (Suc (length pre)) (Suc (length pre + length post))
               (''Processing '' @ name bad @ ''...''),
             Error (''Error processing '' @ name bad @ '': '' @ e)]
          @ loop_events (Suc (length pre + length post)) (Suc (length pre)) post"
    by (simp add: loop_shown loop_events_append loop_events_Cons s)
  have n: "pre @ bad # post \<noteq> []"
    by simp
  have 5: "ui (run L c (pre @ bad # post) jd True)
        = shown (extraction_loop (pre @ bad # post))
          @ (if texts_of pre @ texts_of post = []
             then [Error ''No valid text extracted from uploaded resumes!'']
             else case fst (fit_transform L (get_vectorizer L c) (jd # texts_of pre @ texts_of post)) of
                    Inl e' \<Rightarrow> [Error (''Error in document processing: '' @ e')]
                  | Inr m \<Rightarrow>
                      display (sorted_results (build_results L (map name (valid_of pre @ valid_of post))
                        (concat (cosine_similarity L (take 1 m) (drop 1 m))))))"
    using run_ui [OF n assms(2), of L c] unfolding v x .
  have 6: "texts_of pre @ texts_of post \<noteq> [] \<longrightarrow>
         fit_calls (run L c (pre @ bad # post) jd True) = [jd # texts_of pre @ texts_of post]"
    using run_fit_calls [OF n assms(2), of L c] x by simp
  have 2: "valid_resumes (extraction_loop (pre @ bad # post)) = valid_of pre @ valid_of post"
    by (simp add: loop_valid v)
  have 3: "resume_texts (extraction_loop (pre @ bad # post)) = texts_of pre @ texts_of post"
    by (simp add: loop_texts x)
  from 1 2 3 4 5 6 show ?thesis by blast
qed

text \<open>
  The rejected sample PDF between the two readable samples: its error stands between
  the second and the third progress line, and the two others are ranked.
\<close>

theorem parse_error_shown_text_empty_batch_continues_witness:
  "parse_error broken = Some ''No /Root object'' \<and> ''java'' \<noteq> []
   \<and> extract_text broken = ([], [Error ''Error processing broken.pdf: No /Root object''])
   \<and> resume_texts (extraction_loop [ann, broken, bob]) = [''Senior Java devs'', ''Java  ok'']
   \<and> ui (run demo None [ann, broken, bob] ''java'' True)
       = [Progress 0 1 [], Progress 1 3 ''Processing ann.docx...'',
          Progress 2 3 ''Processing broken.pdf...'',
          Error ''Error processing broken.pdf: No /Root object'',
          Progress 3 3 ''Processing bob.pdf...'', Success 2,
          Card 1 \<lparr>Document = ''bob.pdf'', Match_Score = ''50.00%'', Raw_Score = 1 / 2\<rparr> ''orange'',
          Card 2 \<lparr>Document = ''ann.docx'', Match_Score = ''25.00%'', Raw_Score = 1 / 4\<rparr> ''red'',
          Download [(1, ''bob.pdf'', ''50.00%''), (2, ''ann.docx'', ''25.00%'')]]
   \<and> fit_calls (run demo None [ann, broken, bob] ''java'' True)
       = [[''java'', ''Senior Java devs'', ''Java  ok'']]"
proof -
  have p: "parse_error broken = Some ''No /Root object''"
    by (rule sample_parse_errors)
  have j: "''java'' \<noteq> []"
    by simp
  have va: "valid_of [ann] = [ann]" "texts_of [ann] = [''Senior Java devs'']"
    by (simp_all add: valid_of_def texts_of_def sample_texts)
  have vb: "valid_of [bob] = [bob]" "texts_of [bob] = [''Java  ok'']"
    by (simp_all add: valid_of_def texts_of_def sample_texts)
  have la: "loop_events n i [ann] = [Progress (Suc i) n ''Processing ann.docx...'']" for n i
    by (simp add: loop_events_Cons sample_texts sample_names)
  have lb: "loop_events n i [bob] = [Progress (Suc i) n ''Processing bob.pdf...'']" for n i
    by (simp add: loop_events_Cons sample_texts sample_names)
  have f: "fst (fit_transform demo (get_vectorizer demo None) [''java'', ''Senior Java devs'', ''Java  ok''])
           = Inr [4, 16, 8]"
    by (simp add: demo_fields get_vectorizer_def)
  have d: "display (sorted_results (build_results demo [''ann.docx'', ''bob.pdf'']
              (concat (cosine_similarity demo [4] [16, 8]))))
     = [Success 2,
        Card 1 \<lparr>Document = ''bob.pdf'', Match_Score = ''50.00%'', Raw_Score = 1 / 2\<rparr> ''orange'',
        Card 2 \<lparr>Document = ''ann.docx'', Match_Score = ''25.00%'', Raw_Score = 1 / 4\<rparr> ''red'',
        Download [(1, ''bob.pdf'', ''50.00%''), (2, ''ann.docx'', ''25.00%'')]]"
    by (simp add: cosine_similarity_def demo_fields build_results_def match_score_def
        format_samples sorted_results_def py_sorted_reverse_def display_def score_color_def)
  note th = parse_error_shown_text_empty_batch_continues [OF p j, of "[ann]" "[bob]" demo None]
  have n: "name broken = ''broken.pdf''"
    by (rule sample_names)
  show ?thesis
    using th p unfolding va vb n
    by (simp add: la lb f d sample_names)
qed

section \<open>Runs that rank, runs that stop\<close>

lemma map_enumerate_snd: "map (\<lambda>(k, r). f r) (enumerate n xs) = map f xs"
  by (induction xs arbitrary: n) auto

lemma build_results_pairs:
  "map (\<lambda>r. (Document r, Raw_Score r)) (build_results L names scores) = zip names scores"
  by (simp add: build_results_def comp_def case_prod_beta)

lemma length_build_results:
  "length (build_results L names scores) = min (length names) (length scores)"
  by (simp add: build_results_def)

lemma length_sorted_results: "length (sorted_results rs) = length rs"
  by (simp add: sorted_results_def length_py_sorted_reverse)

lemma mset_sorted_results: "mset (sorted_results rs) = mset rs"
  by (simp add: sorted_results_def mset_py_sorted_reverse)

lemma cards_run_ranks:
  assumes "resumes \<noteq> []" "jd \<noteq> []" "texts_of resumes \<noteq> []"
    and "fit_transform L (get_vectorizer L c) (jd # texts_of resumes) = (Inr m, v')"
    and "m \<noteq> []"
  shows "cards (ui (run L c resumes jd True))
         = enumerate 1 (sorted_results (build_results L (map name (valid_of resumes))
                          (map (cosine L (m ! 0)) (tl m))))"
proof -
  have s: "concat (cosine_similarity L (take 1 m) (drop 1 m)) = map (cosine L (m ! 0)) (tl m)"
    using assms(5) by (rule scores_row0)
  show ?thesis
    unfolding run_ranks [OF assms(1-4)] s
    by (simp add: cards_append loop_cards cards_display)
qed

lemma errors_display [simp]: "error_messages (display srs) = []"
proof -
  have "error_messages (map (\<lambda>(idx, r). Card idx r (c r)) ps) = []" for c ps
    by (induction ps) auto
  then show ?thesis
    by (simp add: display_def error_messages_append)
qed

lemma per_document_errors:
  "error_messages (snd (extract_text r))
     = (case parse_error r of None \<Rightarrow> [] | Some e \<Rightarrow> [''Error processing '' @ name r @ '': '' @ e])"
  by (simp add: extract_text_parse_error split: option.splits)


lemma run_errors_ranked:
  assumes "resumes \<noteq> []" "jd \<noteq> []" "texts_of resumes \<noteq> []"
    and "fit_transform L (get_vectorizer L c) (jd # texts_of resumes) = (Inr m, v')"
  shows "error_messages (ui (run L c resumes jd True))
         = concat (map (\<lambda>r. error_messages (snd (extract_text r))) resumes)"
  unfolding run_ranks [OF assms]
  by (simp add: error_messages_append loop_errors)

lemma run_errors_no_text:
  assumes "resumes \<noteq> []" "jd \<noteq> []" "texts_of resumes = []"
  shows "error_messages (ui (run L c resumes jd True))
         = concat (map (\<lambda>r. error_messages (snd (extract_text r))) resumes)
           @ [''No valid text extracted from uploaded resumes!'']"
  unfolding run_stops_without_text [OF assms]
  by (simp add: error_messages_append loop_errors)

lemma length_valid_plus_empty:
  "length (valid_of rs) + length (filter (\<lambda>r. fst (extract_text r) = []) rs) = length rs"
  unfolding valid_of_def
  using sum_length_filter_compl [of "\<lambda>r. fst (extract_text r) \<noteq> []" rs] by simp

text \<open>
  Claim C1 as stated fails. The readable DOCX and the scanned PDF are submitted; both
  are processed, one document is ranked, the scanned one is dropped, and nothing that is
  shown reports it: there is no error message, and one ranked entry plus no reported
  failure is not two.
\<close>

theorem empty_document_is_not_reported:
  "progress_texts (ui (run demo None [ann, scan] ''java'' True))
     = [[], ''Processing ann.docx...'', ''Processing scan.pdf...'']
   \<and> error_messages (ui (run demo None [ann, scan] ''java'' True)) = []
   \<and> length (cards (ui (run demo None [ann, scan] ''java'' True))) = 1
   \<and> length (cards (ui (run demo None [ann, scan] ''java'' True)))
       + length (error_messages (ui (run demo None [ann, scan] ''java'' True)))
     \<noteq> length [ann, scan]"
proof -
  have t: "texts_of [ann, scan] = [''Senior Java devs'']" and v: "valid_of [ann, scan] = [ann]"
    by (simp_all add: texts_of_def valid_of_def sample_texts)
  have f: "fit_transform demo (get_vectorizer demo None) (''java'' # texts_of [ann, scan])
             = (Inr [4, 16], 1)"
    by (simp add: t demo_fields get_vectorizer_def)
  have l: "shown (extraction_loop [ann, scan])
     = [Progress 0 1 [], Progress 1 2 ''Processing ann.docx...'', Progress 2 2 ''Processing scan.pdf...'']"
    by (simp add: extraction_loop_def loop_body_def sample_texts sample_names)
  have d: "display (sorted_results (build_results demo (map name (valid_of [ann, scan]))
              (concat (cosine_similarity demo (take 1 [4, 16]) (drop 1 [4, 16])))))
     = [Success 1,
        Card 1 \<lparr>Document = ''ann.docx'', Match_Score = ''25.00%'', Raw_Score = 1 / 4\<rparr> ''red'',
        Download [(1, ''ann.docx'', ''25.00%'')]]"
    by (simp add: v sample_names cosine_similarity_def demo_fields build_results_def match_score_def
        format_samples sorted_results_def py_sorted_reverse_def display_def score_color_def)
  have u: "ui (run demo None [ann, scan] ''java'' True)
     = [Progress 0 1 [], Progress 1 2 ''Processing ann.docx...'',
        Progress 2 2 ''Processing scan.pdf...'', Success 1,
        Card 1 \<lparr>Document = ''ann.docx'', Match_Score = ''25.00%'', Raw_Score = 1 / 4\<rparr> ''red'',
        Download [(1, ''ann.docx'', ''25.00%'')]]"
    using run_ranks [of "[ann, scan]" "''java''" demo None "[4, 16]" 1] f t l d by simp
  show ?thesis
    unfolding u by simp
qed

text \<open>
  Claim C1, as the script has it. Whenever the run is not stopped by the vectorizer (it
  returns its matrix, one row per text), the number of cards plus the number of documents
  whose extracted text is empty is the number of documents submitted. What the caller is
  told about the excluded documents is only this: one error message for each document
  whose parse raised, naming it, and the message that no text was extracted when that
  holds for all of them. A document that is empty or of another type is left out without
  a message, and no count or list of the excluded documents is shown.
\<close>

theorem ranked_plus_empty_is_total:
  assumes "resumes \<noteq> []" and "jd \<noteq> []"
    and "fit_transform L (get_vectorizer L c) (jd # texts_of resumes) = (Inr m, v')"
    and "length m = Suc (length (texts_of resumes))"
  shows "length (cards (ui (run L c resumes jd True)))
           + length (filter (\<lambda>r. fst (extract_text r) = []) resumes) = length resumes
    \<and> error_messages (ui (run L c resumes jd True))
        = concat (map (\<lambda>r. case parse_error r of None \<Rightarrow> []
                               | Some e \<Rightarrow> [''Error processing '' @ name r @ '': '' @ e]) resumes)
          @ (if list_all (\<lambda>r. fst (extract_text r) = []) resumes
             then [''No valid text extracted from uploaded resumes!''] else [])"
proof -
  have pe: "(\<lambda>r. error_messages (snd (extract_text r)))
          = (\<lambda>r. case parse_error r of None \<Rightarrow> []
                               | Some e \<Rightarrow> [''Error processing '' @ name r @ '': '' @ e])"
    by (rule ext) (rule per_document_errors)
  have all: "list_all (\<lambda>r. fst (extract_text r) = []) resumes \<longleftrightarrow> texts_of resumes = []"
    by (auto simp: texts_of_def valid_of_def list_all_iff filter_empty_conv)
  show ?thesis
  proof (cases "texts_of resumes = []")
    case True
    then have v: "valid_of resumes = []" by (simp add: texts_of_def)
    have "cards (ui (run L c resumes jd True)) = []"
      unfolding run_stops_without_text [OF assms(1,2) True]
      by (simp add: cards_append loop_cards)
    then show ?thesis
      using length_valid_plus_empty [of resumes] v True all
        run_errors_no_text [OF assms(1,2) True, of L c]
      by (simp add: pe)
  next
    case False
    have m: "m \<noteq> []" using assms(4) by auto
    have "length (cards (ui (run L c resumes jd True))) = length (valid_of resumes)"
      unfolding cards_run_ranks [OF assms(1,2) False assms(3) m]
      using assms(4)
      by (simp add: length_sorted_results length_build_results length_texts_of)
    then show ?thesis
      using length_valid_plus_empty [of resumes] False all
        run_errors_ranked [OF assms(1,2) False assms(3)]
      by (simp add: pe)
  qed
qed

text \<open>
  The four samples together: two are ranked, the scanned and the rejected PDF are left
  out, and the only report is the error message of the rejected one.
\<close>

theorem ranked_plus_empty_is_total_witness:
  "[ann, scan, broken, bob] \<noteq> [] \<and> ''java'' \<noteq> []
   \<and> fit_transform demo (get_vectorizer demo None) (''java'' # texts_of [ann, scan, broken, bob])
       = (Inr [4, 16, 8], 1)
   \<and> length [4, 16, 8 :: nat] = Suc (length (texts_of [ann, scan, broken, bob]))
   \<and> length (cards (ui (run demo None [ann, scan, broken, bob] ''java'' True))) + 2 = 4
   \<and> error_messages (ui (run demo None [ann, scan, broken, bob] ''java'' True))
       = [''Error processing broken.pdf: No /Root object'']"
proof -
  have t: "texts_of [ann, scan, broken, bob] = [''Senior Java devs'', ''Java  ok'']"
    by (simp add: texts_of_def valid_of_def sample_texts)
  have f: "fit_transform demo (get_vectorizer demo None) (''java'' # texts_of [ann, scan, broken, bob])
             = (Inr [4, 16, 8], 1)"
    by (simp add: t demo_fields get_vectorizer_def)
  have l: "length [4, 16, 8 :: nat] = Suc (length (texts_of [ann, scan, broken, bob]))"
    by (simp add: t)
  have e: "filter (\<lambda>r. fst (extract_text r) = []) [ann, scan, broken, bob] = [scan, broken]"
    by (simp add: sample_texts)
  have a: "\<not> list_all (\<lambda>r. fst (extract_text r) = []) [ann, scan, broken, bob]"
    by (simp add: sample_texts)
  have n1: "[ann, scan, broken, bob] \<noteq> []" and n2: "''java'' \<noteq> []"
    by simp_all
  show ?thesis
    using ranked_plus_empty_is_total [OF n1 n2 f l] e a f l
    by (simp add: sample_parse_errors sample_names)
qed

text \<open>
  Claim C4 as stated fails in its last part. A scanned PDF alone is submitted: the run
  stops with the one message that no text was extracted, and that message does not name
  the document; no list of the failed documents is returned.
\<close>

theorem no_failure_list_when_nothing_extracted:
  "ui (run demo None [scan] ''java'' True)
     = [Progress 0 1 [], Progress 1 1 ''Processing scan.pdf...'',
        Error ''No valid text extracted from uploaded resumes!'']
   \<and> error_messages (ui (run demo None [scan] ''java'' True))
     = [''No valid text extracted from uploaded resumes!'']
   \<and> \<not> contains ''No valid text extracted from uploaded resumes!'' (name scan)"
proof -
  have t: "texts_of [scan] = []"
    by (simp add: texts_of_def valid_of_def sample_texts)
  have l: "shown (extraction_loop [scan]) = [Progress 0 1 [], Progress 1 1 ''Processing scan.pdf...'']"
    by (simp add: extraction_loop_def loop_body_def sample_texts sample_names)
  have u: "ui (run demo None [scan] ''java'' True)
     = [Progress 0 1 [], Progress 1 1 ''Processing scan.pdf...'',
        Error ''No valid text extracted from uploaded resumes!'']"
    using run_stops_without_text [of "[scan]" "''java''" demo None] t l by simp
  have e: "error_messages (ui (run demo None [scan] ''java'' True))
     = [''No valid text extracted from uploaded resumes!'']"
    unfolding u by simp
  have n: "\<not> contains ''No valid text extracted from uploaded resumes!'' (name scan)"
    by (simp add: sample_names)
  from u e n show ?thesis by blast
qed

text \<open>
  Claim C4, as the script has it. When no document yields text, the run stops before the
  vectorization: \<open>fit_transform\<close> is not called, the cached vectorizer is the object
  \<open>get_vectorizer\<close> returned, nothing is ranked or offered for download, and the last
  thing shown is the message that no text was extracted. The error messages are those of
  the documents whose parse raised, followed by that message.
\<close>

theorem no_text_stops_before_fit:
  assumes "resumes \<noteq> []" and "jd \<noteq> []"
    and "list_all (\<lambda>r. fst (extract_text r) = []) resumes"
  shows "fit_calls (run L c resumes jd True) = []
    \<and> cache (run L c resumes jd True) = Some (get_vectorizer L c)
    \<and> cards (ui (run L c resumes jd True)) = []
    \<and> downloads (ui (run L c resumes jd True)) = []
    \<and> last (ui (run L c resumes jd True)) = Error ''No valid text extracted from uploaded resumes!''
    \<and> error_messages (ui (run L c resumes jd True))
        = concat (map (\<lambda>r. case parse_error r of None \<Rightarrow> []
                               | Some e \<Rightarrow> [''Error processing '' @ name r @ '': '' @ e]) resumes)
          @ [''No valid text extracted from uploaded resumes!'']"
proof -
  have t: "texts_of resumes = []"
    using assms(3) by (simp add: texts_of_def valid_of_def list_all_iff filter_empty_conv)
  have pe: "(\<lambda>r. error_messages (snd (extract_text r)))
          = (\<lambda>r. case parse_error r of None \<Rightarrow> []
                               | Some e \<Rightarrow> [''Error processing '' @ name r @ '': '' @ e])"
    by (rule ext) (rule per_document_errors)
  have e: "error_messages (ui (run L c resumes jd True))
        = concat (map (\<lambda>r. case parse_error r of None \<Rightarrow> []
                               | Some e \<Rightarrow> [''Error processing '' @ name r @ '': '' @ e]) resumes)
          @ [''No valid text extracted from uploaded resumes!'']"
    using run_errors_no_text [OF assms(1,2) t, of L c] by (simp add: pe)
  show ?thesis
    using e unfolding run_stops_without_text [OF assms(1,2) t]
    by (simp add: cards_append downloads_append loop_cards loop_downloads)
qed

text \<open>The scanned and the rejected sample PDF: only the rejected one has a message of its own.\<close>

theorem no_text_stops_before_fit_witness:
  "[scan, broken] \<noteq> [] \<and> ''java'' \<noteq> []
   \<and> list_all (\<lambda>r. fst (extract_text r) = []) [scan, broken]
   \<and> fit_calls (run demo None [scan, broken] ''java'' True) = []
   \<and> cards (ui (run demo None [scan, broken] ''java'' True)) = []
   \<and> error_messages (ui (run demo None [scan, broken] ''java'' True))
       = [''Error processing broken.pdf: No /Root object'',
          ''No valid text extracted from uploaded resumes!'']"
proof -
  have n1: "[scan, broken] \<noteq> []" and n2: "''java'' \<noteq> []"
    by simp_all
  have a: "list_all (\<lambda>r. fst (extract_text r) = []) [scan, broken]"
    by (simp add: sample_texts)
  show ?thesis
    using no_text_stops_before_fit [OF n1 n2 a, of demo None] a
    by (simp add: sample_parse_errors sample_names)
qed

section \<open>What the returned text tells\<close>

lemma extract_text_other_type:
  "\<not> endswith (name f) ''.pdf'' \<Longrightarrow> \<not> endswith (name f) ''.docx'' \<Longrightarrow> extract_text f = ([], [])"
  by (simp add: extract_text_def)

lemma extract_text_blank_pdf:
  "endswith (name f) ''.pdf'' \<Longrightarrow> pdf f = Inr pages
   \<Longrightarrow> list_all py_isspace (py_join '' '' (map or_empty pages)) \<Longrightarrow> extract_text f = ([], [])"
  by (simp add: extract_text_def py_strip_whitespace)

lemma extract_text_blank_docx:
  "\<not> endswith (name f) ''.pdf'' \<Longrightarrow> endswith (name f) ''.docx'' \<Longrightarrow> docx f = Inr paragraphs
   \<Longrightarrow> list_all py_isspace (py_join '' '' paragraphs) \<Longrightarrow> extract_text f = ([], [])"
  by (simp add: extract_text_def py_strip_whitespace)

lemma ranked_pairs:
  "map (\<lambda>(k, r). (Document r, Raw_Score r)) (enumerate n (sorted_results (build_results L names scores)))
     = map (\<lambda>r. (Document r, Raw_Score r)) (sorted_results (build_results L names scores))"
  by (rule map_enumerate_snd)

lemma mset_ranked_pairs:
  "mset (map (\<lambda>r. (Document r, Raw_Score r)) (sorted_results (build_results L names scores)))
     = mset (zip names scores)"
proof -
  have "mset (map (\<lambda>r. (Document r, Raw_Score r)) (sorted_results (build_results L names scores)))
        = image_mset (\<lambda>r. (Document r, Raw_Score r)) (mset (sorted_results (build_results L names scores)))"
    by simp
  also have "\<dots> = image_mset (\<lambda>r. (Document r, Raw_Score r)) (mset (build_results L names scores))"
    by (simp only: mset_sorted_results)
  also have "\<dots> = mset (map (\<lambda>r. (Document r, Raw_Score r)) (build_results L names scores))"
    by simp
  finally show ?thesis
    by (simp only: build_results_pairs)
qed

text \<open>
  Claim C10 as stated fails in its last part. The DOCX whose text is the letter a is
  submitted with the job description b: the returned text is not empty, no text has a
  token for the vocabulary, the vectorizer raises, and the run stops with that error.
  The document does not appear in any ranking.
\<close>

theorem text_extracted_but_not_ranked:
  "fst (extract_text tiny) = ''a''
   \<and> ui (run demo None [tiny] ''b'' True)
       = [Progress 0 1 [], Progress 1 1 ''Processing tiny.docx...'',
          Error ''Error in document processing: empty vocabulary; perhaps the documents only contain stop words'']
   \<and> cards (ui (run demo None [tiny] ''b'' True)) = []"
proof -
  have e: "extract_text tiny = (''a'', [])"
    by (simp add: extract_text_def tiny_def endswith_def py_strip_def py_lstrip_def py_rstrip_def
        py_isspace_def)
  have t: "texts_of [tiny] = [''a'']"
    by (simp add: texts_of_def valid_of_def e)
  have n: "name tiny = ''tiny.docx''"
    by (simp add: tiny_def)
  have l: "shown (extraction_loop [tiny]) = [Progress 0 1 [], Progress 1 1 ''Processing tiny.docx...'']"
    by (simp add: loop_shown loop_events_Cons e n)
  have f: "fst (fit_transform demo (get_vectorizer demo None) (''b'' # texts_of [tiny]))
           = Inl ''empty vocabulary; perhaps the documents only contain stop words''"
    by (simp add: t demo_fields get_vectorizer_def)
  have u: "ui (run demo None [tiny] ''b'' True)
       = [Progress 0 1 [], Progress 1 1 ''Processing tiny.docx...'',
          Error ''Error in document processing: empty vocabulary; perhaps the documents only contain stop words'']"
    using run_ui [of "[tiny]" "''b''" demo None] f t l by simp
  show ?thesis
    unfolding u using e by simp
qed

text \<open>
  Claim C10, as the script has it. \<open>extract_text\<close> returns a plain string, and the empty
  string stands for four different things: the parse raised, the file is neither \<open>.pdf\<close>
  nor \<open>.docx\<close>, or the text of the PDF or of the DOCX is empty or all whitespace. When the
  vectorizer returns its matrix, one row per text, the cards are, up to their order, the
  documents with a non-empty text, each once and each with the similarity of its own row
  to row 0. When the vectorizer raises although some text was extracted, no document is
  ranked: nothing is offered for download and the run ends with the error of the
  vectorizer.
\<close>

theorem empty_text_hides_cause_and_ranking_needs_matrix:
  assumes "resumes \<noteq> []" and "jd \<noteq> []"
  shows "(\<forall>f e. parse_error f = Some e \<longrightarrow> fst (extract_text f) = [])
    \<and> (\<forall>f. \<not> endswith (name f) ''.pdf'' \<and> \<not> endswith (name f) ''.docx'' \<longrightarrow> fst (extract_text f) = [])
    \<and> (\<forall>f pages. endswith (name f) ''.pdf'' \<and> pdf f = Inr pages
           \<and> list_all py_isspace (py_join '' '' (map or_empty pages)) \<longrightarrow> fst (extract_text f) = [])
    \<and> (\<forall>f paragraphs. \<not> endswith (name f) ''.pdf'' \<and> endswith (name f) ''.docx''
           \<and> docx f = Inr paragraphs \<and> list_all py_isspace (py_join '' '' paragraphs)
           \<longrightarrow> fst (extract_text f) = [])
    \<and> (\<forall>m v'. fit_transform L (get_vectorizer L c) (jd # texts_of resumes) = (Inr m, v')
           \<and> length m = Suc (length (texts_of resumes))
         \<longrightarrow> mset (map (\<lambda>(k, r). (Document r, Raw_Score r)) (cards (ui (run L c resumes jd True))))
               = mset (zip (map name (filter (\<lambda>r. fst (extract_text r) \<noteq> []) resumes))
                           (map (cosine L (m ! 0)) (tl m)))
             \<and> length (cards (ui (run L c resumes jd True)))
               = length (filter (\<lambda>r. fst (extract_text r) \<noteq> []) resumes)
             \<and> length (map (cosine L (m ! 0)) (tl m))
               = length (filter (\<lambda>r. fst (extract_text r) \<noteq> []) resumes))
    \<and> (\<forall>e v'. fit_transform L (get_vectorizer L c) (jd # texts_of resumes) = (Inl e, v')
           \<and> filter (\<lambda>r. fst (extract_text r) \<noteq> []) resumes \<noteq> []
         \<longrightarrow> cards (ui (run L c resumes jd True)) = []
             \<and> downloads (ui (run L c resumes jd True)) = []
             \<and> last (ui (run L c resumes jd True)) = Error (''Error in document processing: '' @ e))"
proof -
  have 1: "\<forall>f e. parse_error f = Some e \<longrightarrow> fst (extract_text f) = []"
    by (simp add: extract_text_raised)
  have 2: "\<forall>f. \<not> endswith (name f) ''.pdf'' \<and> \<not> endswith (name f) ''.docx'' \<longrightarrow> fst (extract_text f) = []"
    by (simp add: extract_text_other_type)
  have 3: "\<forall>f pages. endswith (name f) ''.pdf'' \<and> pdf f = Inr pages
           \<and> list_all py_isspace (py_join '' '' (map or_empty pages)) \<longrightarrow> fst (extract_text f) = []"
    by (simp add: extract_text_blank_pdf)
  have 4: "\<forall>f paragraphs. \<not> endswith (name f) ''.pdf'' \<and> endswith (name f) ''.docx''
           \<and> docx f = Inr paragraphs \<and> list_all py_isspace (py_join '' '' paragraphs)
           \<longrightarrow> fst (extract_text f) = []"
    by (simp add: extract_text_blank_docx)
  have v: "filter (\<lambda>r. fst (extract_text r) \<noteq> []) resumes = valid_of resumes"
    by (simp add: valid_of_def)
  have 5: "mset (map (\<lambda>(k, r). (Document r, Raw_Score r)) (cards (ui (run L c resumes jd True))))
               = mset (zip (map name (valid_of resumes)) (map (cosine L (m ! 0)) (tl m)))
             \<and> length (cards (ui (run L c resumes jd True))) = length (valid_of resumes)
             \<and> length (map (cosine L (m ! 0)) (tl m)) = length (valid_of resumes)"
    if f: "fit_transform L (get_vectorizer L c) (jd # texts_of resumes) = (Inr m, v')"
      and len: "length m = Suc (length (texts_of resumes))" for m v'
  proof -
    have m: "m \<noteq> []" using len by auto
    have l3: "length (map (cosine L (m ! 0)) (tl m)) = length (valid_of resumes)"
      using len by (simp add: length_texts_of)
    have "mset (map (\<lambda>(k, r). (Document r, Raw_Score r)) (cards (ui (run L c resumes jd True))))
        = mset (zip (map name (valid_of resumes)) (map (cosine L (m ! 0)) (tl m)))
      \<and> length (cards (ui (run L c resumes jd True))) = length (valid_of resumes)"
    proof (cases "texts_of resumes = []")
      case True
      then have e: "valid_of resumes = []" by (simp add: texts_of_def)
      have "cards (ui (run L c resumes jd True)) = []"
        unfolding run_stops_without_text [OF assms True]
        by (simp add: cards_append loop_cards)
      then show ?thesis by (simp add: e)
    next
      case False
      show ?thesis
        unfolding cards_run_ranks [OF assms False f m] ranked_pairs mset_ranked_pairs
        using len by (simp add: length_sorted_results length_build_results length_texts_of)
    qed
    then show ?thesis using l3 by blast
  qed
  have 6: "cards (ui (run L c resumes jd True)) = []
             \<and> downloads (ui (run L c resumes jd True)) = []
             \<and> last (ui (run L c resumes jd True)) = Error (''Error in document processing: '' @ e)"
    if f: "fit_transform L (get_vectorizer L c) (jd # texts_of resumes) = (Inl e, v')"
      and some: "valid_of resumes \<noteq> []" for e v'
  proof -
    have t: "texts_of resumes \<noteq> []"
      using some by (simp add: texts_of_def)
    show ?thesis
      unfolding run_fit_raises [OF assms t f]
      by (simp add: cards_append downloads_append loop_cards loop_downloads)
  qed
  show ?thesis
    unfolding v using 1 2 3 4 5 6 by blast
qed

text \<open>
  The four samples: the rejected and the scanned PDF both give the empty string, the two
  others are ranked with their own scores. The DOCX of one letter: its text is kept, the
  vectorizer raises, and nothing is ranked.
\<close>

theorem empty_text_hides_cause_and_ranking_needs_matrix_witness:
  "[ann, scan, broken, bob] \<noteq> [] \<and> ''java'' \<noteq> []
   \<and> fit_transform demo (get_vectorizer demo None) (''java'' # texts_of [ann, scan, broken, bob])
       = (Inr [4, 16, 8], 1)
   \<and> length [4, 16, 8 :: nat] = Suc (length (texts_of [ann, scan, broken, bob]))
   \<and> parse_error broken = Some ''No /Root object''
   \<and> fst (extract_text broken) = [] \<and> fst (extract_text scan) = []
   \<and> mset (map (\<lambda>(k, r). (Document r, Raw_Score r))
              (cards (ui (run demo None [ann, scan, broken, bob] ''java'' True))))
       = mset [(''ann.docx'', 1 / 4), (''bob.pdf'', 1 / 2)]
   \<and> fit_transform demo (get_vectorizer demo None) (''b'' # texts_of [tiny])
       = (Inl ''empty vocabulary; perhaps the documents only contain stop words'', 1)
   \<and> filter (\<lambda>r. fst (extract_text r) \<noteq> []) [tiny] \<noteq> []
   \<and> cards (ui (run demo None [tiny] ''b'' True)) = []"
proof -
  have t: "texts_of [ann, scan, broken, bob] = [''Senior Java devs'', ''Java  ok'']"
    by (simp add: texts_of_def valid_of_def sample_texts)
  have f: "fit_transform demo (get_vectorizer demo None) (''java'' # texts_of [ann, scan, broken, bob])
             = (Inr [4, 16, 8], 1)"
    by (simp add: t demo_fields get_vectorizer_def)
  have l: "length [4, 16, 8 :: nat] = Suc (length (texts_of [ann, scan, broken, bob]))"
    by (simp add: t)
  have n1: "[ann, scan, broken, bob] \<noteq> []" and n2: "''java'' \<noteq> []"
    by simp_all
  have e: "filter (\<lambda>r. fst (extract_text r) \<noteq> []) [ann, scan, broken, bob] = [ann, bob]"
    by (simp add: sample_texts)
  have z: "zip (map name [ann, bob]) (map (cosine demo ([4, 16, 8] ! 0)) (tl [4, 16, 8]))
           = [(''ann.docx'', 1 / 4), (''bob.pdf'', 1 / 2)]"
    by (simp add: sample_names demo_fields)
  note th = empty_text_hides_cause_and_ranking_needs_matrix [OF n1 n2, of demo None]
  have b: "fst (extract_text broken) = []"
    using th sample_parse_errors(4) by blast
  have "mset (map (\<lambda>(k, r). (Document r, Raw_Score r))
              (cards (ui (run demo None [ann, scan, broken, bob] ''java'' True))))
       = mset (zip (map name (filter (\<lambda>r. fst (extract_text r) \<noteq> []) [ann, scan, broken, bob]))
                   (map (cosine demo ([4, 16, 8] ! 0)) (tl [4, 16, 8])))"
    using th f l by blast
  then have r: "mset (map (\<lambda>(k, r). (Document r, Raw_Score r))
              (cards (ui (run demo None [ann, scan, broken, bob] ''java'' True))))
       = mset [(''ann.docx'', 1 / 4), (''bob.pdf'', 1 / 2)]"
    unfolding e z .
  have et: "extract_text tiny = (''a'', [])"
    by (simp add: extract_text_def tiny_def endswith_def py_strip_def py_lstrip_def py_rstrip_def
        py_isspace_def)
  have tt: "texts_of [tiny] = [''a'']"
    by (simp add: texts_of_def valid_of_def et)
  have ft: "fit_transform demo (get_vectorizer demo None) (''b'' # texts_of [tiny])
       = (Inl ''empty vocabulary; perhaps the documents only contain stop words'', 1)"
    by (simp add: tt demo_fields get_vectorizer_def)
  have nt: "filter (\<lambda>r. fst (extract_text r) \<noteq> []) [tiny] \<noteq> []"
    by (simp add: et)
  have m1: "[tiny] \<noteq> []" and m2: "''b'' \<noteq> []"
    by simp_all
  have c: "cards (ui (run demo None [tiny] ''b'' True)) = []"
    using empty_text_hides_cause_and_ranking_needs_matrix [OF m1 m2, of demo None] ft nt by blast
  show ?thesis
    using n1 n2 f l b r ft nt c sample_parse_errors(4) by (simp add: sample_texts)
qed

section \<open>The vectorizer across runs\<close>

lemma get_vectorizer_Some: "get_vectorizer L (Some v) = v"
  by (simp add: get_vectorizer_def)

lemma get_vectorizer_None: "get_vectorizer L None = TfidfVectorizer L ''english''"
  by (simp add: get_vectorizer_def)

lemma run_vectorizer_after:
  "get_vectorizer L (cache (run L c resumes jd b))
     = fold (\<lambda>ts v. snd (fit_transform L v ts)) (fit_calls (run L c resumes jd b)) (get_vectorizer L c)"
proof (cases "resumes \<noteq> [] \<and> jd \<noteq> [] \<and> b")
  case False
  then show ?thesis
    by (auto simp: run_def)
next
  case True
  then have r: "resumes \<noteq> []" and j: "jd \<noteq> []" and b: "b = True"
    by simp_all
  show ?thesis
  proof (cases "texts_of resumes = []")
    case True
    show ?thesis
      unfolding b run_stops_without_text [OF r j True]
      by (simp add: get_vectorizer_Some)
  next
    case False
    obtain res v' where f: "fit_transform L (get_vectorizer L c) (jd # texts_of resumes) = (res, v')"
      by (cases "fit_transform L (get_vectorizer L c) (jd # texts_of resumes)")
    show ?thesis
    proof (cases res)
      case (Inl e)
      show ?thesis
        unfolding b run_fit_raises [OF r j False f [unfolded Inl]]
        by (simp add: get_vectorizer_Some f Inl)
    next
      case (Inr m)
      show ?thesis
        unfolding b run_ranks [OF r j False f [unfolded Inr]]
        by (simp add: get_vectorizer_Some f Inr)
    qed
  qed
qed

lemma session_snoc:
  "session L (history @ [(resumes, jd, b)])
     = (cache (run L (fst (session L history)) resumes jd b),
        snd (session L history) @ fit_calls (run L (fst (session L history)) resumes jd b))"
  by (simp add: session_def Let_def split: prod.splits)

lemma session_vectorizer:
  "get_vectorizer L (fst (session L history))
     = fold (\<lambda>ts v. snd (fit_transform L v ts)) (snd (session L history)) (TfidfVectorizer L ''english'')"
proof (induction history rule: rev_induct)
  case Nil
  then show ?case by (simp add: session_def get_vectorizer_None)
next
  case (snoc x history)
  obtain resumes jd b where x: "x = (resumes, jd, b)"
    by (cases x) auto
  show ?case
    unfolding x session_snoc
    by (simp add: run_vectorizer_after snoc.IH)
qed

text \<open>
  Claim C7. In a run that reaches the vectorization (some document yields text),
  whatever runs the process has served before, \<open>fit_transform\<close> is called exactly once,
  on the job description followed by the non-empty extracted texts in upload order, so
  the job description is text 0 of the corpus and the statistics of the fit are those of
  this batch. The object it is called on is the one built as
  \<open>TfidfVectorizer(stop_words='english')\<close>, after the fits of the earlier runs. The scores
  behind the cards compare row 0 of the matrix with each of the other rows.
\<close>

theorem fitted_once_on_query_then_texts:
  assumes "resumes \<noteq> []" and "jd \<noteq> []"
    and "filter (\<lambda>r. fst (extract_text r) \<noteq> []) resumes \<noteq> []"
  shows "fit_calls (run L (fst (session L history)) resumes jd True)
           = [jd # map (\<lambda>r. fst (extract_text r)) (filter (\<lambda>r. fst (extract_text r) \<noteq> []) resumes)]
    \<and> get_vectorizer L (fst (session L history))
        = fold (\<lambda>ts v. snd (fit_transform L v ts)) (snd (session L history))
            (TfidfVectorizer L ''english'')
    \<and> (\<forall>m v'. fit_transform L (get_vectorizer L (fst (session L history)))
                  (jd # map (\<lambda>r. fst (extract_text r))
                          (filter (\<lambda>r. fst (extract_text r) \<noteq> []) resumes)) = (Inr m, v')
                \<and> m \<noteq> []
          \<longrightarrow> map snd (cards (ui (run L (fst (session L history)) resumes jd True)))
                = sorted_results
                    (build_results L (map name (filter (\<lambda>r. fst (extract_text r) \<noteq> []) resumes))
                       (map (cosine L (m ! 0)) (tl m))))"
proof -
  have t: "texts_of resumes \<noteq> []"
    using assms(3) by (simp add: texts_of_def valid_of_def)
  have 1: "fit_calls (run L (fst (session L history)) resumes jd True) = [jd # texts_of resumes]"
    using assms(1,2) t by (rule run_fit_calls)
  have 3: "map snd (cards (ui (run L (fst (session L history)) resumes jd True)))
                = sorted_results (build_results L (map name (valid_of resumes))
                       (map (cosine L (m ! 0)) (tl m)))"
    if "fit_transform L (get_vectorizer L (fst (session L history))) (jd # texts_of resumes) = (Inr m, v')"
      and "m \<noteq> []" for m v'
    unfolding cards_run_ranks [OF assms(1,2) t that] by simp
  show ?thesis
    using 1 3 session_vectorizer [of L history]
    by (simp add: texts_of_def valid_of_def)
qed

text \<open>A second run of a process whose first run had fitted the vectorizer on another batch.\<close>

theorem fitted_once_on_query_then_texts_witness:
  "[ann, scan, bob] \<noteq> [] \<and> ''java'' \<noteq> []
   \<and> filter (\<lambda>r. fst (extract_text r) \<noteq> []) [ann, scan, bob] \<noteq> []
   \<and> session demo [([bob], ''java'', True)] = (Some 1, [[''java'', ''Java  ok'']])
   \<and> fit_calls (run demo (fst (session demo [([bob], ''java'', True)])) [ann, scan, bob] ''java'' True)
       = [[''java'', ''Senior Java devs'', ''Java  ok'']]
   \<and> get_vectorizer demo (fst (session demo [([bob], ''java'', True)]))
       = snd (fit_transform demo (TfidfVectorizer demo ''english'') [''java'', ''Java  ok''])"
proof -
  have n1: "[ann, scan, bob] \<noteq> []" and n2: "''java'' \<noteq> []"
    by simp_all
  have e: "filter (\<lambda>r. fst (extract_text r) \<noteq> []) [ann, scan, bob] = [ann, bob]"
    by (simp add: sample_texts)
  then have n3: "filter (\<lambda>r. fst (extract_text r) \<noteq> []) [ann, scan, bob] \<noteq> []"
    by simp
  have tb: "texts_of [bob] = [''Java  ok'']"
    by (simp add: texts_of_def valid_of_def sample_texts)
  have fb: "fit_transform demo (get_vectorizer demo None) (''java'' # texts_of [bob]) = (Inr [4, 8], 1)"
    by (simp add: tb demo_fields get_vectorizer_def)
  have rb: "cache (run demo None [bob] ''java'' True) = Some 1
          \<and> fit_calls (run demo None [bob] ''java'' True) = [[''java'', ''Java  ok'']]"
    using run_ranks [of "[bob]" "''java''" demo None "[4, 8]" 1] fb tb by simp
  have s: "session demo [([bob], ''java'', True)] = (Some 1, [[''java'', ''Java  ok'']])"
    using session_snoc [of demo "[]" "[bob]" "''java''" True] rb
    by (simp add: session_def)
  show ?thesis
    using fitted_once_on_query_then_texts [OF n1 n2 n3, of demo "[([bob], ''java'', True)]"] n3 s
    by (simp add: e sample_texts)
qed

section \<open>The score as shown\<close>

lemma digit_value_digit: "d < 10 \<Longrightarrow> digit_value (digit d) = d"
proof -
  assume "d < 10"
  then have "d \<in> {0, 1, 2, 3, 4, 5, 6, 7, 8, 9}"
    by auto
  then show ?thesis
    by (auto simp: digit_value_def digit_def)
qed

lemma decimal_value_snoc: "decimal_value (s @ [c]) = 10 * decimal_value s + digit_value c"
  by (simp add: decimal_value_def)

lemma decimal_value_decimal: "decimal_value (decimal n) = n"
proof (induction n rule: decimal.induct)
  case (1 n)
  show ?case
  proof (cases "n < 10")
    case True
    then show ?thesis
      by (subst decimal.simps) (simp add: decimal_value_def digit_value_digit)
  next
    case False
    then have "decimal_value (decimal (n div 10)) = n div 10"
      by (rule "1.IH")
    then show ?thesis
      using False
      by (subst decimal.simps) (simp add: decimal_value_snoc digit_value_digit)
  qed
qed

lemma decimal_value_two_digits:
  "a < 10 \<Longrightarrow> b < 10 \<Longrightarrow> decimal_value [digit a, digit b] = 10 * a + b"
  by (simp add: decimal_value_def digit_value_digit)

lemma round_half_even_close: "\<bar>of_int (round_half_even y) - y\<bar> \<le> 1 / 2"
proof -
  have "of_int \<lfloor>y\<rfloor> \<le> y" and "y < of_int \<lfloor>y\<rfloor> + 1"
    by linarith+
  then show ?thesis
    by (auto simp: round_half_even_def Let_def abs_le_iff)
qed

lemma round_half_even_nonneg: "0 \<le> y \<Longrightarrow> 0 \<le> round_half_even y"
  by (auto simp: round_half_even_def Let_def)

lemma format_2f_rounds:
  "\<exists>ip d1 d2. format_2f x = (if x < 0 then ''-'' else []) @ ip @ ''.'' @ [d1, d2]
     \<and> \<bar>of_nat (decimal_value ip) + of_nat (decimal_value [d1, d2]) / 100 - \<bar>x\<bar>\<bar> \<le> 1 / 200"
proof -
  define n where "n = nat (round_half_even (\<bar>x\<bar> * 100))"
  have nn: "0 \<le> round_half_even (\<bar>x\<bar> * 100)"
    by (rule round_half_even_nonneg) simp
  have f: "format_2f x = (if x < 0 then ''-'' else []) @ decimal (n div 100) @ ''.'' @
         [digit (n mod 100 div 10), digit (n mod 10)]"
    by (simp add: format_2f_def n_def Let_def)
  have two: "decimal_value [digit (n mod 100 div 10), digit (n mod 10)] = n mod 100"
  proof -
    have e: "n mod 10 = n mod 100 mod 10"
      by (simp add: mod_mod_cancel)
    have "decimal_value [digit (n mod 100 div 10), digit (n mod 10)]
          = 10 * (n mod 100 div 10) + n mod 10"
      by (rule decimal_value_two_digits) simp_all
    also have "\<dots> = n mod 100"
      unfolding e by simp
    finally show ?thesis .
  qed
  have nd: "100 * (n div 100) + n mod 100 = n"
    by simp
  have q: "(of_nat n :: rat) = 100 * of_nat (n div 100) + of_nat (n mod 100)"
    by (metis nd of_nat_add of_nat_mult of_nat_numeral)
  have "(of_nat (decimal_value (decimal (n div 100))) :: rat)
          + of_nat (decimal_value [digit (n mod 100 div 10), digit (n mod 10)]) / 100
        = of_nat (n div 100) + of_nat (n mod 100) / 100"
    by (simp only: decimal_value_decimal two)
  also have "\<dots> = of_nat n / 100"
    unfolding q by (simp add: add_divide_distrib)
  also have "\<dots> = of_int (round_half_even (\<bar>x\<bar> * 100)) / 100"
    using nn by (simp add: n_def)
  finally have v: "(of_nat (decimal_value (decimal (n div 100))) :: rat)
          + of_nat (decimal_value [digit (n mod 100 div 10), digit (n mod 10)]) / 100
        = of_int (round_half_even (\<bar>x\<bar> * 100)) / 100" .
  have "\<bar>of_int (round_half_even (\<bar>x\<bar> * 100)) - \<bar>x\<bar> * 100\<bar> \<le> 1 / 2"
    by (rule round_half_even_close)
  then have "\<bar>of_int (round_half_even (\<bar>x\<bar> * 100)) / 100 - \<bar>x\<bar>\<bar> \<le> 1 / 200"
    by (simp add: abs_le_iff field_simps)
  then show ?thesis
    using f v by metis
qed

lemma insort_key_map:
  "map f (insort_key (\<lambda>x. k (f x)) x xs) = insort_key k (f x) (map f xs)"
  by (induction xs) auto

lemma sort_key_map:
  "map f (sort_key (\<lambda>x. k (f x)) xs) = sort_key k (map f xs)"
  by (induction xs) (simp_all add: insort_key_map)

lemma py_sorted_reverse_map:
  "map f (py_sorted_reverse (\<lambda>x. k (f x)) xs) = py_sorted_reverse k (map f xs)"
proof -
  have "map f (rev (sort_key (\<lambda>x. k (f x)) (rev xs)))
        = rev (map f (sort_key (\<lambda>x. k (f x)) (rev xs)))"
    by (simp add: rev_map)
  also have "\<dots> = rev (sort_key k (map f (rev xs)))"
    by (simp only: sort_key_map)
  also have "map f (rev xs) = rev (map f xs)"
    by (simp add: rev_map)
  finally show ?thesis
    by (simp only: py_sorted_reverse_def)
qed

lemma ranked_pairs_from_scores:
  "map (\<lambda>r. (Document r, Raw_Score r)) (sorted_results (build_results L names scores))
     = py_sorted_reverse snd (zip names scores)"
proof -
  have "map (\<lambda>r. (Document r, Raw_Score r)) (sorted_results (build_results L names scores))
      = py_sorted_reverse snd (map (\<lambda>r. (Document r, Raw_Score r)) (build_results L names scores))"
    unfolding sorted_results_def
    using py_sorted_reverse_map [of "\<lambda>r. (Document r, Raw_Score r)" snd] by simp
  then show ?thesis
    by (simp only: build_results_pairs)
qed

lemma match_score_of_built:
  "r \<in> set (build_results L names scores) \<Longrightarrow> Match_Score r = match_score L (Raw_Score r)"
  by (auto simp: build_results_def)

lemma set_sorted_results: "set (sorted_results rs) = set rs"
  using mset_sorted_results [of rs] by (metis set_mset_mset)

text \<open>
  Claim C9. In the sorted results every Match Score is the raw score of the same entry,
  multiplied by 100 and formatted: an optional sign, the integer part, a point and
  exactly two decimals, the number written being within half a hundredth of the product,
  followed by the percent sign. The order of the entries is the descending stable order
  of the raw scores: the documents with their raw scores come out as the sort of the
  (name, score) pairs by score alone, whatever the strings are.
\<close>

theorem shown_score_is_rounded_percentage_of_sort_key:
  "map Match_Score (sorted_results (build_results L names scores))
     = map (\<lambda>r. format_2f (float_mul L (Raw_Score r) 100) @ ''%'')
         (sorted_results (build_results L names scores))
   \<and> (\<forall>x. \<exists>ip d1 d2. format_2f x = (if x < 0 then ''-'' else []) @ ip @ ''.'' @ [d1, d2]
          \<and> \<bar>of_nat (decimal_value ip) + of_nat (decimal_value [d1, d2]) / 100 - \<bar>x\<bar>\<bar> \<le> 1 / 200)
   \<and> sorted_wrt (\<lambda>a b. Raw_Score b \<le> Raw_Score a) (sorted_results (build_results L names scores))
   \<and> map (\<lambda>r. (Document r, Raw_Score r)) (sorted_results (build_results L names scores))
       = py_sorted_reverse snd (zip names scores)"
proof -
  have 1: "map Match_Score (sorted_results (build_results L names scores))
     = map (\<lambda>r. format_2f (float_mul L (Raw_Score r) 100) @ ''%'')
         (sorted_results (build_results L names scores))"
    by (rule map_cong [OF refl])
       (simp add: set_sorted_results match_score_of_built match_score_def [symmetric])
  have 3: "sorted_wrt (\<lambda>a b. Raw_Score b \<le> Raw_Score a) (sorted_results (build_results L names scores))"
    unfolding sorted_results_def by (rule py_sorted_reverse_desc)
  show ?thesis
    using 1 3 format_2f_rounds ranked_pairs_from_scores [of L names scores] by blast
qed

text \<open>
  Scores 1/16 and 1/8: the entry shown as 12.50% precedes the one shown as 6.25%, although
  the second string is the greater one. A tie of the third decimal goes to the even
  digit, and a negative value that rounds to zero keeps its sign.
\<close>

theorem shown_score_is_rounded_percentage_of_sort_key_witness:
  "map Match_Score (sorted_results (build_results demo [''a.pdf'', ''b.pdf''] [1 / 16, 1 / 8]))
     = [''12.50%'', ''6.25%'']
   \<and> map Document (sorted_results (build_results demo [''a.pdf'', ''b.pdf''] [1 / 16, 1 / 8]))
     = [''b.pdf'', ''a.pdf'']
   \<and> format_2f (1 / 8) = ''0.12'' \<and> format_2f (75 / 8) = ''9.38'' \<and> format_2f (- 1 / 1000) = ''-0.00''"
proof -
  let ?S = "sorted_results (build_results demo [''a.pdf'', ''b.pdf''] [1 / 16, 1 / 8])"
  note th = shown_score_is_rounded_percentage_of_sort_key [of demo "[''a.pdf'', ''b.pdf'']" "[1 / 16, 1 / 8]"]
  have p: "map (\<lambda>r. (Document r, Raw_Score r)) ?S = [(''b.pdf'', 1 / 8), (''a.pdf'', 1 / 16)]"
    using th by (simp add: py_sorted_reverse_def)
  have "map Raw_Score ?S = map snd (map (\<lambda>r. (Document r, Raw_Score r)) ?S)"
    by (simp add: comp_def)
  then have raw: "map Raw_Score ?S = [1 / 8, 1 / 16]"
    by (simp only: p) simp
  have "map Document ?S = map fst (map (\<lambda>r. (Document r, Raw_Score r)) ?S)"
    by (simp add: comp_def)
  then have doc: "map Document ?S = [''b.pdf'', ''a.pdf'']"
    by (simp only: p) simp
  have fl: "\<lfloor>25 / 2 :: rat\<rfloor> = 12" "\<lfloor>1875 / 2 :: rat\<rfloor> = 937"
    by (simp_all add: floor_eq_iff)
  have f: "format_2f (25 / 2) = ''12.50''" "format_2f (25 / 4) = ''6.25''"
    "format_2f (1 / 8) = ''0.12''" "format_2f (75 / 8) = ''9.38''" "format_2f (- 1 / 1000) = ''-0.00''"
    by (simp_all add: format_2f_def round_half_even_def Let_def decimal.simps digit_def fl)
  have "map Match_Score ?S
      = map (\<lambda>s. format_2f (float_mul demo s 100) @ ''%'') (map Raw_Score ?S)"
    using th by (simp add: comp_def)
  then have ms: "map Match_Score ?S = [''12.50%'', ''6.25%'']"
    by (simp only: raw) (simp add: demo_fields f)
  show ?thesis
    using ms doc f by simp
qed

end
